theory Spec2Isabelle
  imports Complex_Main "HOL-Library.Multiset"
begin

section \<open>JavaScript numbers\<close>

text \<open>
  JavaScript numbers are modelled as real numbers: the arithmetic of the editor is carried
  out exactly, rounding of IEEE doubles is left aside.  \<open>Math.round\<close> rounds half-way
  cases towards plus infinity, \<open>Math.ceil\<close> is the ceiling, and \<open>a || b\<close> on numbers
  picks \<open>b\<close> exactly when \<open>a\<close> is zero.
\<close>

definition js_or :: "real \<Rightarrow> real \<Rightarrow> real" where
  "js_or a b = (if a = 0 then b else a)"

definition Math_round :: "real \<Rightarrow> int" where
  "Math_round v = \<lfloor>v + 1 / 2\<rfloor>"

definition Math_ceil :: "real \<Rightarrow> int" where
  "Math_ceil v = \<lceil>v\<rceil>"

section \<open>Export router (exportRouter.js)\<close>

text \<open>
  The global object: \<open>None\<close> when \<open>typeof window\<close> is \<open>'undefined'\<close>, otherwise the set
  of property names for which \<open>name in window\<close> holds.
\<close>

type_synonym window = "string set option"

definition canUseWebCodecs :: "window \<Rightarrow> bool" where
  "canUseWebCodecs win =
     (case win of
        None \<Rightarrow> False
      | Some props \<Rightarrow>
          ''VideoEncoder'' \<in> props \<and> ''VideoDecoder'' \<in> props \<and>
          ''AudioEncoder'' \<in> props \<and> ''AudioDecoder'' \<in> props)"

definition needsWebCodecs :: "'a list \<Rightarrow> 'b list \<Rightarrow> bool" where
  "needsWebCodecs textLayers drawingLayers \<longleftrightarrow>
     length textLayers > 0 \<or> length drawingLayers > 0"

datatype export_method = WEBCODECS | FFMPEG | UNSUPPORTED

text \<open>
  The options object of \<open>getExportMethod\<close>: a field left out is \<open>None\<close> and takes the
  default \<open>[]\<close> of the destructuring pattern.
\<close>

record ('a, 'b) export_options =
  arg_textLayers :: "'a list option"
  arg_drawingLayers :: "'b list option"

definition default_list :: "'a list option \<Rightarrow> 'a list" where
  "default_list v = (case v of None \<Rightarrow> [] | Some xs \<Rightarrow> xs)"

definition getExportMethod :: "window \<Rightarrow> ('a, 'b) export_options \<Rightarrow> export_method" where
  "getExportMethod win options =
     (let hasOverlays = needsWebCodecs (default_list (arg_textLayers options))
                                       (default_list (arg_drawingLayers options));
          supportsWebCodecs = canUseWebCodecs win
      in if hasOverlays then (if supportsWebCodecs then WEBCODECS else UNSUPPORTED)
         else FFMPEG)"

section \<open>Layers\<close>

text \<open>
  A layer of the editor (\<open>handleAddText\<close>, \<open>handleSaveDrawing\<close>).  Drawings carry
  \<open>type: 'image'\<close> and a \<open>src\<close>, which is kept here as the decoded picture, that is its
  pixel dimensions; text layers have neither.  Every layer made by the editor carries
  \<open>transform.scale\<close> and \<open>transform.rotate\<close>, so the fallbacks \<open>transform.scale || [1, 1]\<close>
  and \<open>transform.rotate || 0\<close> of the exporters return the field itself.  The identifier is
  kept in the form it has as a property key.
\<close>

record timing =
  t_start :: real
  t_end :: real

record transform =
  tr_x :: real
  tr_y :: real
  tr_scale :: "real \<times> real"
  tr_rotate :: real

record style =
  fontSize :: real
  color :: string
  fontFamily :: string
  fontWeight :: string
  textAlign :: string

record image =
  img_width :: nat
  img_height :: nat

record layer =
  l_id :: string
  l_type :: "string option"
  l_src :: "image option"
  l_text :: string
  l_timing :: timing
  l_transform :: transform
  l_style :: style

section \<open>Active overlays\<close>

text \<open>
  \<open>getActiveOverlays\<close> of the canvas compositor: \<open>currentTime\<close> is the time since the start
  of the export, \<open>startTime\<close> the start of the trim range.
\<close>

definition getActiveOverlays :: "layer list \<Rightarrow> real \<Rightarrow> real \<Rightarrow> layer list" where
  "getActiveOverlays overlays currentTime startTime =
     filter (\<lambda>overlay.
        let adjustedStart = max 0 (t_start (l_timing overlay) - startTime);
            adjustedEnd = t_end (l_timing overlay) - startTime
        in currentTime \<ge> adjustedStart \<and> currentTime \<le> adjustedEnd) overlays"

text \<open>
  The same filter inside \<open>renderFrame\<close> of the streaming exporter: \<open>currentTime\<close> is
  \<open>video.currentTime\<close>, a time of the source video.
\<close>

definition activeOverlays :: "real \<Rightarrow> layer list \<Rightarrow> real \<Rightarrow> layer list" where
  "activeOverlays this_startTime overlays currentTime =
     (let relativeTime = currentTime - this_startTime
      in filter (\<lambda>o'.
           let start = max 0 (t_start (l_timing o') - this_startTime);
               end' = t_end (l_timing o') - this_startTime
           in relativeTime \<ge> start \<and> relativeTime \<le> end') overlays)"

section \<open>Overlay store (VideoEditor.jsx)\<close>

text \<open>
  \<open>handleUpdateText\<close> spreads two objects, so here a layer is what a JavaScript object is:
  a finite map from property names to values.  \<open>{...layer, ...updates}\<close> takes every
  property of \<open>updates\<close> and the remaining ones of \<open>layer\<close>.
\<close>

datatype js_value =
    Undefined
  | Num real
  | Str string
  | Arr "js_value list"
  | Obj "(string \<times> js_value) list"

type_synonym js_object = "string \<rightharpoonup> js_value"

definition spread :: "js_object \<Rightarrow> js_object \<Rightarrow> js_object" where
  "spread layer updates = layer ++ updates"

definition handleUpdateText :: "js_value \<Rightarrow> js_object \<Rightarrow> js_object list \<Rightarrow> js_object list" where
  "handleUpdateText ident updates layers =
     map (\<lambda>layer. if layer ''id'' = Some ident then spread layer updates else layer) layers"

section \<open>Streaming exporter (webcodecsExporter.js)\<close>

text \<open>
  The options object of the constructor; a field that is left out, \<open>undefined\<close> or \<open>null\<close>
  is \<open>None\<close>.  \<open>v || d\<close> gives \<open>d\<close> for a missing field and for the number zero.
\<close>

record exporter_options =
  opt_startTime :: "real option"
  opt_endTime :: "real option"
  opt_overlays :: "layer list option"
  opt_displayWidth :: "real option"
  opt_displayHeight :: "real option"

record exporter =
  this_startTime :: real
  this_endTime :: "real option"
  this_overlays :: "layer list"
  this_displayWidth :: "real option"
  this_displayHeight :: "real option"
  this_recordedChunks :: "nat list"

definition or_default :: "real option \<Rightarrow> real \<Rightarrow> real" where
  "or_default v d = (case v of None \<Rightarrow> d | Some a \<Rightarrow> js_or a d)"

definition or_null :: "real option \<Rightarrow> real option" where
  "or_null v = (case v of None \<Rightarrow> None | Some a \<Rightarrow> if a = 0 then None else Some a)"

definition constructor :: "exporter_options \<Rightarrow> exporter" where
  "constructor options =
     \<lparr> this_startTime = or_default (opt_startTime options) 0,
       this_endTime = or_null (opt_endTime options),
       this_overlays = default_list (opt_overlays options),
       this_displayWidth = or_null (opt_displayWidth options),
       this_displayHeight = or_null (opt_displayHeight options),
       this_recordedChunks = [] \<rparr>"

text \<open>
  The duration computed at the head of \<open>export\<close>; \<open>video_duration\<close> is
  \<open>videoInfo.duration\<close>.
\<close>

definition exportDuration :: "exporter \<Rightarrow> real \<Rightarrow> real" where
  "exportDuration this video_duration =
     (let duration = or_default (this_endTime this) video_duration
      in duration - this_startTime this)"

subsection \<open>The recorder\<close>

text \<open>
  \<open>processVideoFrames\<close> from the call of \<open>mediaRecorder.start()\<close> on, as the sequence of
  the things that happen to the job, each handled to its end before the next:

  \<^item> \<open>Abort\<close>: somebody calls \<open>abort()\<close>;
  \<^item> \<open>Started t\<close>: the seek, the loading of the pictures and \<open>video.play()\<close> have
    finished; \<open>renderFrame\<close> runs for the first time, at the playback time \<open>t\<close>, and
    then the promise is made, which installs \<open>onstop\<close> and arms the safety timeout;
  \<^item> \<open>Frame t\<close>: the display calls \<open>renderFrame\<close> again, if that was requested;
  \<^item> \<open>Watchdog\<close>: the safety timeout fires, if it is armed;
  \<^item> \<open>DataAvailable\<close>, \<open>ErrorEvent\<close>, \<open>StopEvent\<close>: the recorder delivers an event.
    \<open>dataavailable\<close> carries the size of \<open>event.data\<close> (\<open>None\<close> when there is no data).

  Of the recorder it is taken that \<open>stop()\<close> in the state \<open>recording\<close> makes it
  \<open>inactive\<close> and puts one \<open>stop\<close> event on its way, that \<open>stop()\<close> in the state
  \<open>inactive\<close> puts no event on its way, and that an event goes to the handler that is
  installed when it is delivered.  The promise is \<open>None\<close> while it is pending.
\<close>

datatype recorder_event =
    Abort
  | Started real
  | Frame real
  | Watchdog
  | DataAvailable "nat option"
  | ErrorEvent string
  | StopEvent

datatype recorder_state = Inactive | Recording

record blob =
  blob_parts :: "nat list"
  blob_type :: string

datatype job_result = Failed string | Complete blob

record job =
  j_state :: recorder_state
  j_stop_queued :: bool
  j_onstop :: bool
  j_watchdog :: bool
  j_started :: bool
  j_frame_requested :: bool
  j_aborted :: bool
  j_recordedChunks :: "nat list"
  j_promise :: "job_result option"

fun starts_with :: "string \<Rightarrow> string \<Rightarrow> bool" where
  "starts_with s [] = True"
| "starts_with [] (c # t) = False"
| "starts_with (d # s) (c # t) = (d = c \<and> starts_with s t)"

fun str_includes :: "string \<Rightarrow> string \<Rightarrow> bool" where
  "str_includes [] t = starts_with [] t"
| "str_includes (d # s) t = (starts_with (d # s) t \<or> str_includes s t)"

definition ondataavailable :: "nat option \<Rightarrow> nat list \<Rightarrow> nat list" where
  "ondataavailable data recordedChunks =
     (case data of
        None \<Rightarrow> recordedChunks
      | Some sz \<Rightarrow> if sz > 0 then recordedChunks @ [sz] else recordedChunks)"

definition onstop :: "string \<Rightarrow> nat list \<Rightarrow> job_result" where
  "onstop mimeType recordedChunks =
     (if length recordedChunks = 0 then Failed ''No data was recorded''
      else let b = \<lparr> blob_parts = recordedChunks, blob_type = mimeType \<rparr>;
               mp4Blob = (if str_includes mimeType ''mp4'' \<or> str_includes (blob_type b) ''mp4'' then b
                          else \<lparr> blob_parts = [sum_list (blob_parts b)], blob_type = ''video/mp4'' \<rparr>)
           in Complete mp4Blob)"

text \<open>\<open>mediaRecorder.stop()\<close>.\<close>

definition recorder_stop :: "job \<Rightarrow> job" where
  "recorder_stop j =
     (if j_state j = Recording then j\<lparr> j_state := Inactive, j_stop_queued := True \<rparr> else j)"

text \<open>
  \<open>renderFrame\<close>, as far as the job goes: it stops the recorder when the export was
  aborted or the end of the range is reached, and otherwise draws the frame and asks for
  the next one.
\<close>

definition renderFrame :: "exporter \<Rightarrow> real \<Rightarrow> real \<Rightarrow> real \<Rightarrow> job \<Rightarrow> job" where
  "renderFrame this export_duration video_duration currentTime j =
     (if j_aborted j then (recorder_stop j)\<lparr> j_frame_requested := False \<rparr>
      else let relativeTime = currentTime - this_startTime this
           in if relativeTime \<ge> export_duration \<or>
                 currentTime \<ge> or_default (this_endTime this) video_duration
              then (recorder_stop j)\<lparr> j_frame_requested := False \<rparr>
              else j\<lparr> j_frame_requested := True \<rparr>)"

definition abort :: "job \<Rightarrow> job" where
  "abort j = (let j = j\<lparr> j_aborted := True \<rparr> in if j_state j = Recording then recorder_stop j else j)"

fun job_step :: "exporter \<Rightarrow> string \<Rightarrow> real \<Rightarrow> real \<Rightarrow> job \<Rightarrow> recorder_event \<Rightarrow> job" where
  "job_step this mimeType export_duration video_duration j Abort = abort j"
| "job_step this mimeType export_duration video_duration j (Started t) =
     (if j_started j then j
      else (renderFrame this export_duration video_duration t j)
             \<lparr> j_started := True, j_onstop := True, j_watchdog := True \<rparr>)"
| "job_step this mimeType export_duration video_duration j (Frame t) =
     (if j_frame_requested j then renderFrame this export_duration video_duration t j else j)"
| "job_step this mimeType export_duration video_duration j Watchdog =
     (if j_watchdog j
      then (if j_state j = Recording then recorder_stop j else j)\<lparr> j_watchdog := False \<rparr>
      else j)"
| "job_step this mimeType export_duration video_duration j (DataAvailable data) =
     j\<lparr> j_recordedChunks := ondataavailable data (j_recordedChunks j) \<rparr>"
| "job_step this mimeType export_duration video_duration j (ErrorEvent msg) = j"
| "job_step this mimeType export_duration video_duration j StopEvent =
     (if j_stop_queued j
      then (if j_onstop j \<and> j_promise j = None
            then j\<lparr> j_stop_queued := False,
                    j_promise := Some (onstop mimeType (j_recordedChunks j)) \<rparr>
            else j\<lparr> j_stop_queued := False \<rparr>)
      else j)"

text \<open>
  The job when the recorder has just been started: \<open>this.recordedChunks\<close> was emptied, the
  handlers for data and errors are in place, \<open>onstop\<close> is not.
\<close>

definition started_job :: job where
  "started_job =
     \<lparr> j_state = Recording, j_stop_queued = False, j_onstop = False, j_watchdog = False,
       j_started = False, j_frame_requested = False, j_aborted = False,
       j_recordedChunks = [], j_promise = None \<rparr>"

definition processVideoFrames ::
  "exporter \<Rightarrow> string \<Rightarrow> real \<Rightarrow> real \<Rightarrow> recorder_event list \<Rightarrow> job_result option" where
  "processVideoFrames this mimeType export_duration video_duration evs =
     j_promise (foldl (job_step this mimeType export_duration video_duration) started_job evs)"

text \<open>
  \<open>export\<close> computes the duration and hands the result of \<open>processVideoFrames\<close> on: a
  rejection is logged and thrown again.
\<close>

definition export :: "exporter \<Rightarrow> string \<Rightarrow> real \<Rightarrow> recorder_event list \<Rightarrow> job_result option" where
  "export this mimeType video_duration evs =
     (case processVideoFrames this mimeType (exportDuration this video_duration) video_duration evs of
        None \<Rightarrow> None
      | Some (Failed error) \<Rightarrow> Some (Failed error)
      | Some (Complete b) \<Rightarrow> Some (Complete b))"

text \<open>A text layer as \<open>handleAddText\<close> makes it, shown from second 2 to second 5.\<close>

definition example_timing_layer :: layer where
  "example_timing_layer =
     \<lparr> l_id = ''1'', l_type = None, l_src = None, l_text = ''Double Click to Edit'',
       l_timing = \<lparr> t_start = 2, t_end = 5 \<rparr>,
       l_transform = \<lparr> tr_x = 100, tr_y = 100, tr_scale = (1, 1), tr_rotate = 0 \<rparr>,
       l_style = \<lparr> fontSize = 40, color = ''#ffffff'', fontFamily = ''Clash Display'',
                   fontWeight = ''600'', textAlign = ''center'' \<rparr> \<rparr>"

section \<open>Timeline layout (TextTimeline.jsx)\<close>

text \<open>
  \<open>getLayerRows\<close>: the layers are sorted by start time (the sort of JavaScript arrays is
  stable, as insertion sort by key is), each layer goes to the first row whose last layer
  has ended, or to a new row, and every identifier is mapped to the index of its row.
  A row is never empty, so \<open>row[row.length - 1]\<close> is the last element.
\<close>

definition layer_start :: "layer \<Rightarrow> real" where
  "layer_start l = t_start (l_timing l)"

definition layer_end :: "layer \<Rightarrow> real" where
  "layer_end l = t_end (l_timing l)"

fun place :: "layer \<Rightarrow> layer list list \<Rightarrow> layer list list" where
  "place layer [] = [[layer]]"
| "place layer (row # rows) =
     (let lastLayerInRow = last row
      in if layer_start layer \<ge> layer_end lastLayerInRow then (row @ [layer]) # rows
         else row # place layer rows)"

fun assign_rows :: "nat \<Rightarrow> layer list list \<Rightarrow> (string \<rightharpoonup> nat) \<Rightarrow> (string \<rightharpoonup> nat)" where
  "assign_rows index [] layerRowMap = layerRowMap"
| "assign_rows index (row # rows) layerRowMap =
     assign_rows (index + 1) rows (foldl (\<lambda>m layer. m(l_id layer \<mapsto> index)) layerRowMap row)"

definition layout_rows :: "layer list \<Rightarrow> layer list list" where
  "layout_rows textLayers =
     (let sortedLayers = sort_key layer_start textLayers
      in foldl (\<lambda>rows layer. place layer rows) [] sortedLayers)"

definition getLayerRows :: "layer list \<Rightarrow> (string \<rightharpoonup> nat) \<times> nat" where
  "getLayerRows textLayers =
     (let rows = layout_rows textLayers
      in (assign_rows 0 rows Map.empty, length rows))"

text \<open>
  The reference for the layout: two layers fit into one row when one ends no later than
  the other starts, a packing spreads the layers over rows of layers that fit pairwise, and
  the minimum row count is the least number of rows of any packing.
\<close>

definition compatible :: "layer \<Rightarrow> layer \<Rightarrow> bool" where
  "compatible a b \<longleftrightarrow> layer_end a \<le> layer_start b \<or> layer_end b \<le> layer_start a"

definition non_overlapping :: "layer list \<Rightarrow> bool" where
  "non_overlapping row = sorted_wrt compatible row"

definition is_packing :: "layer list \<Rightarrow> layer list list \<Rightarrow> bool" where
  "is_packing layers rows \<longleftrightarrow>
     mset (concat rows) = mset layers \<and> (\<forall>row \<in> set rows. non_overlapping row)"

definition min_row_count :: "layer list \<Rightarrow> nat" where
  "min_row_count layers = (LEAST k. \<exists>rows. is_packing layers rows \<and> length rows = k)"

text \<open>Notions for the proof: the layers alive at a point, rows that are chains.\<close>

definition covers :: "real \<Rightarrow> layer \<Rightarrow> bool" where
  "covers p l \<longleftrightarrow> layer_start l \<le> p \<and> p < layer_end l"

definition chain :: "layer list \<Rightarrow> bool" where
  "chain row = sorted_wrt (\<lambda>a b. layer_end a \<le> layer_start b) row"

definition rows_inv :: "layer list \<Rightarrow> layer list list \<Rightarrow> bool" where
  "rows_inv done rows \<longleftrightarrow>
     (\<forall>row \<in> set rows. row \<noteq> [] \<and> chain row) \<and>
     mset (concat rows) = mset done \<and>
     (rows = [] \<or> (\<exists>p. length rows \<le> length (filter (covers p) done)))"

text \<open>Three layers on the timeline, and a store of two layers.\<close>

definition timeline_a :: layer where
  "timeline_a = example_timing_layer\<lparr> l_id := ''1'', l_timing := \<lparr> t_start = 0, t_end = 2 \<rparr> \<rparr>"

definition timeline_b :: layer where
  "timeline_b = example_timing_layer\<lparr> l_id := ''2'', l_timing := \<lparr> t_start = 2, t_end = 6 \<rparr> \<rparr>"

definition timeline_c :: layer where
  "timeline_c = example_timing_layer\<lparr> l_id := ''3'', l_timing := \<lparr> t_start = 3, t_end = 5 \<rparr> \<rparr>"

text \<open>
  Layers made while the duration of the video is still 0: \<open>handleSaveDrawing\<close> then gives a
  drawing the timing from 0 to \<open>Math.min(0 + 3, 0)\<close>, \<open>handleAddText\<close> gives a text the
  timing from 0 to 5.
\<close>

definition drawing_at_0 :: layer where
  "drawing_at_0 = example_timing_layer\<lparr> l_id := ''4'', l_type := Some ''image'',
     l_src := Some \<lparr> img_width = 100, img_height = 60 \<rparr>, l_text := ''Drawing'',
     l_timing := \<lparr> t_start = 0, t_end = 0 \<rparr> \<rparr>"

definition text_at_0 :: layer where
  "text_at_0 = example_timing_layer\<lparr> l_id := ''5'', l_timing := \<lparr> t_start = 0, t_end = 5 \<rparr> \<rparr>"

definition drawing_at_0' :: layer where
  "drawing_at_0' = drawing_at_0\<lparr> l_id := ''6'' \<rparr>"

text \<open>Three layers of which the first and the last carry the same identifier.\<close>

definition shared_l :: layer where
  "shared_l = example_timing_layer\<lparr> l_id := ''7'', l_timing := \<lparr> t_start = 0, t_end = 1 \<rparr> \<rparr>"

definition shared_m :: layer where
  "shared_m = example_timing_layer\<lparr> l_id := ''8'', l_timing := \<lparr> t_start = 1, t_end = 3 \<rparr> \<rparr>"

definition shared_n :: layer where
  "shared_n = example_timing_layer\<lparr> l_id := ''7'', l_timing := \<lparr> t_start = 2, t_end = 4 \<rparr> \<rparr>"

definition example_store :: "js_object list" where
  "example_store =
     [ [''id'' \<mapsto> Str ''1'', ''text'' \<mapsto> Str ''hello'',
        ''timing'' \<mapsto> Obj [(''start'', Num 0), (''end'', Num 5)],
        ''transform'' \<mapsto> Obj [(''x'', Num 100), (''y'', Num 100)]],
       [''id'' \<mapsto> Num 2, ''type'' \<mapsto> Str ''image'',
        ''timing'' \<mapsto> Obj [(''start'', Num 1), (''end'', Num 4)],
        ''transform'' \<mapsto> Obj [(''x'', Num 0), (''y'', Num 0)]] ]"

section \<open>Canvas\<close>

text \<open>
  What the exporters use of a 2D canvas context: the current transformation matrix in the
  six-number form of the canvas interface, the text settings, the stack of saved states, and
  the drawing commands issued so far, each with the state it was issued in.  A point
  \<open>(px, py)\<close> of a command is painted at \<open>apply_ctm\<close> of it.
\<close>

record ctm =
  m_a :: real
  m_b :: real
  m_c :: real
  m_d :: real
  m_e :: real
  m_f :: real

definition identity_ctm :: ctm where
  "identity_ctm = \<lparr> m_a = 1, m_b = 0, m_c = 0, m_d = 1, m_e = 0, m_f = 0 \<rparr>"

definition apply_ctm :: "ctm \<Rightarrow> real \<times> real \<Rightarrow> real \<times> real" where
  "apply_ctm m p =
     (m_a m * fst p + m_c m * snd p + m_e m, m_b m * fst p + m_d m * snd p + m_f m)"

definition ctm_translate :: "real \<Rightarrow> real \<Rightarrow> ctm \<Rightarrow> ctm" where
  "ctm_translate tx ty m =
     m\<lparr> m_e := m_a m * tx + m_c m * ty + m_e m, m_f := m_b m * tx + m_d m * ty + m_f m \<rparr>"

definition ctm_rotate :: "real \<Rightarrow> ctm \<Rightarrow> ctm" where
  "ctm_rotate angle m =
     m\<lparr> m_a := m_a m * cos angle + m_c m * sin angle,
        m_b := m_b m * cos angle + m_d m * sin angle,
        m_c := m_c m * cos angle - m_a m * sin angle,
        m_d := m_d m * cos angle - m_b m * sin angle \<rparr>"

definition ctm_scale :: "real \<Rightarrow> real \<Rightarrow> ctm \<Rightarrow> ctm" where
  "ctm_scale sx sy m =
     m\<lparr> m_a := m_a m * sx, m_b := m_b m * sx, m_c := m_c m * sy, m_d := m_d m * sy \<rparr>"

record font =
  font_weight :: string
  font_size :: real
  font_family :: string

text \<open>\<open>ctx.measureText(text).width\<close> under a font: a property of the browser's fonts.\<close>

type_synonym measureText = "font \<Rightarrow> string \<Rightarrow> real"

record draw_state =
  ds_transform :: ctm
  ds_font :: font
  ds_fillStyle :: string
  ds_textAlign :: string
  ds_textBaseline :: string

datatype draw_op =
    DrawImage image real real real real ctm
  | FillText string real real draw_state

record context2d =
  cur :: draw_state
  saved :: "draw_state list"
  drawn :: "draw_op list"

definition new_context :: context2d where
  "new_context =
     \<lparr> cur = \<lparr> ds_transform = identity_ctm,
                ds_font = \<lparr> font_weight = ''normal'', font_size = 10, font_family = ''sans-serif'' \<rparr>,
                ds_fillStyle = ''#000000'', ds_textAlign = ''start'',
                ds_textBaseline = ''alphabetic'' \<rparr>,
       saved = [], drawn = [] \<rparr>"

definition ctx_save :: "context2d \<Rightarrow> context2d" where
  "ctx_save ctx = ctx\<lparr> saved := cur ctx # saved ctx \<rparr>"

definition ctx_restore :: "context2d \<Rightarrow> context2d" where
  "ctx_restore ctx =
     (case saved ctx of [] \<Rightarrow> ctx | s # rest \<Rightarrow> ctx\<lparr> cur := s, saved := rest \<rparr>)"

definition ctx_translate :: "real \<Rightarrow> real \<Rightarrow> context2d \<Rightarrow> context2d" where
  "ctx_translate tx ty ctx =
     ctx\<lparr> cur := (cur ctx)\<lparr> ds_transform := ctm_translate tx ty (ds_transform (cur ctx)) \<rparr> \<rparr>"

definition ctx_rotate :: "real \<Rightarrow> context2d \<Rightarrow> context2d" where
  "ctx_rotate angle ctx =
     ctx\<lparr> cur := (cur ctx)\<lparr> ds_transform := ctm_rotate angle (ds_transform (cur ctx)) \<rparr> \<rparr>"

definition ctx_scale :: "real \<Rightarrow> real \<Rightarrow> context2d \<Rightarrow> context2d" where
  "ctx_scale sx sy ctx =
     ctx\<lparr> cur := (cur ctx)\<lparr> ds_transform := ctm_scale sx sy (ds_transform (cur ctx)) \<rparr> \<rparr>"

definition ctx_font :: "font \<Rightarrow> context2d \<Rightarrow> context2d" where
  "ctx_font f ctx = ctx\<lparr> cur := (cur ctx)\<lparr> ds_font := f \<rparr> \<rparr>"

definition ctx_fillStyle :: "string \<Rightarrow> context2d \<Rightarrow> context2d" where
  "ctx_fillStyle c ctx = ctx\<lparr> cur := (cur ctx)\<lparr> ds_fillStyle := c \<rparr> \<rparr>"

definition ctx_textAlign :: "string \<Rightarrow> context2d \<Rightarrow> context2d" where
  "ctx_textAlign a ctx = ctx\<lparr> cur := (cur ctx)\<lparr> ds_textAlign := a \<rparr> \<rparr>"

definition ctx_textBaseline :: "string \<Rightarrow> context2d \<Rightarrow> context2d" where
  "ctx_textBaseline b ctx = ctx\<lparr> cur := (cur ctx)\<lparr> ds_textBaseline := b \<rparr> \<rparr>"

text \<open>\<open>drawImage(image, dx, dy, dw, dh)\<close> and \<open>drawImage(image, dx, dy)\<close>, which draws the
  picture at its own size.\<close>

definition ctx_drawImage :: "image \<Rightarrow> real \<Rightarrow> real \<Rightarrow> real \<Rightarrow> real \<Rightarrow> context2d \<Rightarrow> context2d" where
  "ctx_drawImage img dx dy dw dh ctx =
     ctx\<lparr> drawn := drawn ctx @ [DrawImage img dx dy dw dh (ds_transform (cur ctx))] \<rparr>"

definition ctx_drawImage3 :: "image \<Rightarrow> real \<Rightarrow> real \<Rightarrow> context2d \<Rightarrow> context2d" where
  "ctx_drawImage3 img dx dy ctx =
     ctx_drawImage img dx dy (real (img_width img)) (real (img_height img)) ctx"

definition ctx_fillText :: "string \<Rightarrow> real \<Rightarrow> real \<Rightarrow> context2d \<Rightarrow> context2d" where
  "ctx_fillText txt tx ty ctx = ctx\<lparr> drawn := drawn ctx @ [FillText txt tx ty (cur ctx)] \<rparr>"

text \<open>The corner of a drawn picture with the least coordinates of the command, as painted.\<close>

fun image_top_left :: "draw_op \<Rightarrow> (real \<times> real) option" where
  "image_top_left (DrawImage img dx dy dw dh m) = Some (apply_ctm m (dx, dy))"
| "image_top_left (FillText txt tx ty st) = None"

definition str_or :: "string \<Rightarrow> string \<Rightarrow> string" where
  "str_or a b = (if a = [] then b else a)"

section \<open>Drawing overlays in the streaming exporter\<close>

text \<open>The scale factors at the head of \<open>drawOverlay\<close>.\<close>

definition overlay_scale :: "exporter \<Rightarrow> real \<Rightarrow> real \<Rightarrow> real \<times> real" where
  "overlay_scale this canvasWidth canvasHeight =
     (case (this_displayWidth this, this_displayHeight this) of
        (Some displayWidth, Some displayHeight) \<Rightarrow>
          if displayWidth \<noteq> 0 \<and> displayHeight \<noteq> 0
          then (canvasWidth / displayWidth, canvasHeight / displayHeight)
          else (1, 1)
      | _ \<Rightarrow> (1, 1))"

text \<open>The text branch up to the size of the element: the scaled font and the padded box.\<close>

definition text_font :: "layer \<Rightarrow> real \<Rightarrow> font" where
  "text_font overlay avgScale =
     (let fontSize = js_or (fontSize (l_style overlay)) 40;
          scaledFontSize = max 1 (fontSize * avgScale)
      in \<lparr> font_weight = str_or (fontWeight (l_style overlay)) ''600'',
           font_size = scaledFontSize,
           font_family = str_or (fontFamily (l_style overlay)) ''Arial'' \<rparr>)"

definition text_element :: "measureText \<Rightarrow> layer \<Rightarrow> real \<Rightarrow> real \<times> real" where
  "text_element metrics overlay avgScale =
     (let f = text_font overlay avgScale;
          textWidth = metrics f (l_text overlay);
          textHeight = font_size f;
          padding = 4 * avgScale;
          elementWidth = textWidth + padding * 2;
          elementHeight = textHeight + padding * 2
      in (elementWidth, elementHeight))"

definition drawOverlay ::
  "exporter \<Rightarrow> measureText \<Rightarrow> context2d \<Rightarrow> layer \<Rightarrow> real \<Rightarrow> real \<Rightarrow> context2d" where
  "drawOverlay this metrics ctx0 overlay canvasWidth canvasHeight =
     (let ctx = ctx_save ctx0;
          (scaleX, scaleY) = overlay_scale this canvasWidth canvasHeight;
          baseScale = tr_scale (l_transform overlay);
          rotation = tr_rotate (l_transform overlay);
          ctx =
            (case (if l_type overlay = Some ''image'' then l_src overlay else None) of
               Some img \<Rightarrow>
                 (let scaledWidth = real (img_width img) * scaleX;
                      scaledHeight = real (img_height img) * scaleY;
                      x = tr_x (l_transform overlay) * scaleX;
                      y = tr_y (l_transform overlay) * scaleY;
                      ctx = ctx_translate (x + scaledWidth / 2) (y + scaledHeight / 2) ctx;
                      ctx = ctx_rotate ((rotation * pi) / 180) ctx;
                      ctx = ctx_scale (fst baseScale) (snd baseScale) ctx
                  in ctx_drawImage img (- scaledWidth / 2) (- scaledHeight / 2)
                       scaledWidth scaledHeight ctx)
             | None \<Rightarrow>
                 (let avgScale = (scaleX + scaleY) / 2;
                      ctx = ctx_font (text_font overlay avgScale) ctx;
                      (elementWidth, elementHeight) = text_element metrics overlay avgScale;
                      x = tr_x (l_transform overlay) * scaleX;
                      y = tr_y (l_transform overlay) * scaleY;
                      ctx = ctx_translate (x + elementWidth / 2) (y + elementHeight / 2) ctx;
                      ctx = ctx_rotate ((rotation * pi) / 180) ctx;
                      ctx = ctx_scale (fst baseScale) (snd baseScale) ctx;
                      ctx = ctx_fillStyle (str_or (color (l_style overlay)) ''#ffffff'') ctx;
                      ctx = ctx_textAlign ''center'' ctx;
                      ctx = ctx_textBaseline ''middle'' ctx
                  in ctx_fillText (l_text overlay) 0 0 ctx))
      in ctx_restore ctx)"

section \<open>Drawing overlays in the canvas compositor\<close>

definition drawTextOverlay :: "context2d \<Rightarrow> layer \<Rightarrow> real \<Rightarrow> real \<Rightarrow> context2d" where
  "drawTextOverlay ctx0 overlay scaleX scaleY =
     (let ctx = ctx_save ctx0;
          x = tr_x (l_transform overlay) * scaleX;
          y = tr_y (l_transform overlay) * scaleY;
          scale = tr_scale (l_transform overlay);
          rotation = tr_rotate (l_transform overlay);
          ctx = ctx_translate x y ctx;
          ctx = ctx_rotate ((rotation * pi) / 180) ctx;
          ctx = ctx_scale (fst scale * scaleX) (snd scale * scaleY) ctx;
          ctx = ctx_font \<lparr> font_weight = str_or (fontWeight (l_style overlay)) ''600'',
                           font_size = js_or (fontSize (l_style overlay)) 40,
                           font_family = str_or (fontFamily (l_style overlay)) ''Arial'' \<rparr> ctx;
          ctx = ctx_fillStyle (str_or (color (l_style overlay)) ''#ffffff'') ctx;
          ctx = ctx_textAlign (str_or (textAlign (l_style overlay)) ''center'') ctx;
          ctx = ctx_textBaseline ''middle'' ctx;
          ctx = ctx_fillText (l_text overlay) 0 0 ctx
      in ctx_restore ctx)"

definition drawImageOverlay :: "context2d \<Rightarrow> layer \<Rightarrow> image \<Rightarrow> real \<Rightarrow> real \<Rightarrow> context2d" where
  "drawImageOverlay ctx0 overlay img scaleX scaleY =
     (let ctx = ctx_save ctx0;
          x = tr_x (l_transform overlay) * scaleX;
          y = tr_y (l_transform overlay) * scaleY;
          scale = tr_scale (l_transform overlay);
          rotation = tr_rotate (l_transform overlay);
          ctx = ctx_translate x y ctx;
          ctx = ctx_rotate ((rotation * pi) / 180) ctx;
          ctx = ctx_scale (fst scale * scaleX) (snd scale * scaleY) ctx;
          ctx = ctx_drawImage3 img (- real (img_width img) / 2) (- real (img_height img) / 2) ctx
      in ctx_restore ctx)"

section \<open>Graph-based export (transcode in VideoEditor.jsx)\<close>

text \<open>
  The filter graph is kept in structured form: each entry of \<open>filterComplex\<close> with the
  numbers and labels that the code prints into its text.  The first entry made for a layer
  is the chain \<open>[k:v]loop=loop=N:size=1:start=0,fps=F,scale=W:H:...[label]\<close>, where \<open>W\<close> and
  \<open>H\<close> are the expressions \<open>trunc(iw*fx/2)*2\<close> and \<open>trunc(ih*fy/2)*2\<close>; the second is
  \<open>[main][label]overlay=x=X:y=Y:shortest=1[out]\<close>.  \<open>inputs\<close> holds the pictures written
  for the \<open>-i\<close> arguments; input \<open>0\<close> of the engine is the video, input \<open>k\<close> the picture
  number \<open>k - 1\<close>.
\<close>

datatype stream = MainVideo | V nat

datatype still = Img nat | Txt nat

datatype filter =
    LoopScale nat int nat real real still
  | Overlay stream still int int stream

record graph =
  filterComplex :: "filter list"
  currentStream :: stream
  inputIndex :: nat
  inputs :: "image list"

text \<open>
  A canvas has whole-numbered sides: assigning to \<open>canvas.width\<close> drops the fraction.
\<close>

definition canvas_size :: "real \<Rightarrow> nat" where
  "canvas_size v = nat \<lfloor>v\<rfloor>"

definition renderTextToImage :: "measureText \<Rightarrow> layer \<Rightarrow> image" where
  "renderTextToImage metrics layer =
     (let fontSize = fontSize (l_style layer);
          fontFamily = fontFamily (l_style layer);
          fontWeight = fontWeight (l_style layer);
          textWidth = metrics \<lparr> font_weight = fontWeight, font_size = fontSize,
                                 font_family = fontFamily \<rparr> (l_text layer);
          textHeight = fontSize * 1.2;
          padding = 4
      in \<lparr> img_width = canvas_size (textWidth + padding * 2),
           img_height = canvas_size (textHeight + padding * 2) \<rparr>)"

text \<open>
  The scale factors of \<open>transcode\<close>.  With a display size of zero the division has no
  number for a result; that case is \<open>None\<close>.
\<close>

record video_element =
  videoWidth :: real
  videoHeight :: real
  clientWidth :: real
  clientHeight :: real

definition transcode_scale :: "real \<times> real \<Rightarrow> video_element \<Rightarrow> (real \<times> real) option" where
  "transcode_scale videoDimensions video =
     (let displayWidth = js_or (js_or (fst videoDimensions) (clientWidth video)) (videoWidth video);
          displayHeight = js_or (js_or (snd videoDimensions) (clientHeight video)) (videoHeight video)
      in if displayWidth = 0 \<or> displayHeight = 0 then None
         else Some (videoWidth video / displayWidth, videoHeight video / displayHeight))"

text \<open>
  The body of the loop over \<open>textLayers\<close> for a layer that is not skipped.  A drawing
  without a picture to fetch makes the export fail, \<open>None\<close>.
\<close>

definition add_layer :: "measureText \<Rightarrow> real \<Rightarrow> real \<Rightarrow> real \<Rightarrow> layer \<Rightarrow> graph \<Rightarrow> graph option" where
  "add_layer metrics duration scaleX scaleY layer g =
     (if l_type layer = Some ''image'' then
        (case l_src layer of
           None \<Rightarrow> None
         | Some img \<Rightarrow>
             (let layerIndex = inputIndex g;
                  nextStream = V layerIndex;
                  scaleFactorX = fst (tr_scale (l_transform layer)) * scaleX;
                  scaleFactorY = snd (tr_scale (l_transform layer)) * scaleY;
                  scaledImg = Img layerIndex;
                  fps = 30;
                  loopCount = Math_ceil (duration * real fps) + 10;
                  x = Math_round (tr_x (l_transform layer) * scaleX);
                  y = Math_round (tr_y (l_transform layer) * scaleY)
              in Some \<lparr> filterComplex = filterComplex g @
                           [LoopScale layerIndex loopCount fps scaleFactorX scaleFactorY scaledImg,
                            Overlay (currentStream g) scaledImg x y nextStream],
                         currentStream = nextStream,
                         inputIndex = layerIndex + 1,
                         inputs = inputs g @ [img] \<rparr>))
      else
        (let textImgData = renderTextToImage metrics layer;
             layerIndex = inputIndex g;
             nextStream = V layerIndex;
             scaleFactorX = fst (tr_scale (l_transform layer)) * scaleX;
             scaleFactorY = snd (tr_scale (l_transform layer)) * scaleY;
             scaledImg = Txt layerIndex;
             fps = 30;
             loopCount = Math_ceil (duration * real fps) + 10;
             x = Math_round (tr_x (l_transform layer) * scaleX);
             y = Math_round (tr_y (l_transform layer) * scaleY)
         in Some \<lparr> filterComplex = filterComplex g @
                      [LoopScale layerIndex loopCount fps scaleFactorX scaleFactorY scaledImg,
                       Overlay (currentStream g) scaledImg x y nextStream],
                    currentStream = nextStream,
                    inputIndex = layerIndex + 1,
                    inputs = inputs g @ [textImgData] \<rparr>))"

fun graph_loop ::
  "measureText \<Rightarrow> real \<Rightarrow> real \<Rightarrow> real \<Rightarrow> real \<Rightarrow> layer list \<Rightarrow> graph \<Rightarrow> graph option" where
  "graph_loop metrics startTime duration scaleX scaleY [] g = Some g"
| "graph_loop metrics startTime duration scaleX scaleY (layer # rest) g =
     (let start = max 0 (t_start (l_timing layer) - startTime);
          end' = min duration (t_end (l_timing layer) - startTime)
      in if end' \<le> 0 \<or> start \<ge> duration
         then graph_loop metrics startTime duration scaleX scaleY rest g
         else (case add_layer metrics duration scaleX scaleY layer g of
                 None \<Rightarrow> None
               | Some g' \<Rightarrow> graph_loop metrics startTime duration scaleX scaleY rest g'))"

definition transcode_graph ::
  "measureText \<Rightarrow> real \<Rightarrow> real \<Rightarrow> real \<Rightarrow> real \<Rightarrow> layer list \<Rightarrow> graph option" where
  "transcode_graph metrics startTime endTime scaleX scaleY layers =
     (let duration = endTime - startTime
      in graph_loop metrics startTime duration scaleX scaleY layers
           \<lparr> filterComplex = [], currentStream = MainVideo, inputIndex = 1, inputs = [] \<rparr>)"

text \<open>
  What the engine makes of the size expressions: \<open>trunc\<close> drops the fraction towards zero,
  \<open>iw\<close> and \<open>ih\<close> are the sides of the picture that enters the scale operator.
\<close>

definition trunc :: "real \<Rightarrow> int" where
  "trunc v = (if v \<ge> 0 then \<lfloor>v\<rfloor> else \<lceil>v\<rceil>)"

definition target_size :: "nat \<Rightarrow> real \<Rightarrow> int" where
  "target_size iw scaleFactor = trunc (real iw * scaleFactor / 2) * 2"

fun scale_size :: "image list \<Rightarrow> filter \<Rightarrow> (int \<times> int) list" where
  "scale_size ins (LoopScale k n fps fx fy s) =
     (if 1 \<le> k \<and> k - 1 < length ins
      then [(target_size (img_width (ins ! (k - 1))) fx, target_size (img_height (ins ! (k - 1))) fy)]
      else [])"
| "scale_size ins (Overlay main s x y out) = []"

definition scale_sizes :: "graph \<Rightarrow> (int \<times> int) list" where
  "scale_sizes g = concat (map (scale_size (inputs g)) (filterComplex g))"

fun loop_counts :: "filter list \<Rightarrow> int list" where
  "loop_counts [] = []"
| "loop_counts (LoopScale k n fps fx fy s # fs) = n # loop_counts fs"
| "loop_counts (Overlay main s x y out # fs) = loop_counts fs"

text \<open>The layers that the loop does not skip, and the picture written for a layer.\<close>

definition exported :: "real \<Rightarrow> real \<Rightarrow> layer \<Rightarrow> bool" where
  "exported startTime duration layer \<longleftrightarrow>
     \<not> (min duration (t_end (l_timing layer) - startTime) \<le> 0 \<or>
        max 0 (t_start (l_timing layer) - startTime) \<ge> duration)"

definition layer_still :: "measureText \<Rightarrow> layer \<Rightarrow> image option" where
  "layer_still metrics layer =
     (if l_type layer = Some ''image'' then l_src layer
      else Some (renderTextToImage metrics layer))"

text \<open>
  For comparison, the rounding that the specification words for the sides of the scale
  operator: the even integer nearest to a number (half-way cases upwards).
\<close>

definition round_even :: "real \<Rightarrow> int" where
  "round_even v = 2 * \<lfloor>v / 2 + 1 / 2\<rfloor>"

definition example_metrics :: measureText where
  "example_metrics f txt = font_size f * real (length txt) / 2"

definition example_drawing :: layer where
  "example_drawing =
     \<lparr> l_id = ''2'', l_type = Some ''image'', l_src = Some \<lparr> img_width = 7, img_height = 6 \<rparr>,
       l_text = ''Drawing'', l_timing = \<lparr> t_start = 1, t_end = 4 \<rparr>,
       l_transform = \<lparr> tr_x = 50, tr_y = 50, tr_scale = (1 / 2, 1), tr_rotate = 0 \<rparr>,
       l_style = \<lparr> fontSize = 0, color = [], fontFamily = [], fontWeight = [], textAlign = [] \<rparr> \<rparr>"

text \<open>
  Notions for the statements about the scale operator: an even integer reached from a number
  by dropping towards zero, the input numbers used by the loop chains, and the size that a
  layer's picture is scaled to.
\<close>

definition truncated_even :: "real \<Rightarrow> int \<Rightarrow> bool" where
  "truncated_even v w \<longleftrightarrow> even w \<and> \<bar>real_of_int w\<bar> \<le> \<bar>v\<bar> \<and> \<bar>v - real_of_int w\<bar> < 2"

fun loop_inputs :: "filter list \<Rightarrow> nat list" where
  "loop_inputs [] = []"
| "loop_inputs (LoopScale k n fps fx fy s # fs) = k # loop_inputs fs"
| "loop_inputs (Overlay main s x y out # fs) = loop_inputs fs"

definition graph_inv :: "graph \<Rightarrow> bool" where
  "graph_inv g \<longleftrightarrow>
     inputIndex g = length (inputs g) + 1 \<and>
     (\<forall>k \<in> set (loop_inputs (filterComplex g)). 1 \<le> k \<and> k \<le> length (inputs g))"

definition scaled_size :: "measureText \<Rightarrow> real \<Rightarrow> real \<Rightarrow> layer \<Rightarrow> int \<times> int \<Rightarrow> bool" where
  "scaled_size metrics scaleX scaleY layer sz \<longleftrightarrow>
     (\<exists>img. layer_still metrics layer = Some img \<and>
        fst sz = 2 * trunc (real (img_width img) * fst (tr_scale (l_transform layer)) * scaleX / 2) \<and>
        snd sz = 2 * trunc (real (img_height img) * snd (tr_scale (l_transform layer)) * scaleY / 2) \<and>
        truncated_even (real (img_width img) * fst (tr_scale (l_transform layer)) * scaleX) (fst sz) \<and>
        truncated_even (real (img_height img) * snd (tr_scale (l_transform layer)) * scaleY) (snd sz))"


section \<open>Where a text layer lands\<close>

text \<open>
  Both exporters centre the text in a box.  In the streaming exporter the box is the element
  of \<open>drawOverlay\<close> around the point of \<open>fillText\<close>, carried through the transformation;
  in the graph it is the scaled picture of the text, put at the position of the overlay
  operator.  A box is given by its corners with the least and the greatest coordinates.
\<close>

fun text_box :: "real \<times> real \<Rightarrow> draw_op \<Rightarrow> ((real \<times> real) \<times> (real \<times> real)) option" where
  "text_box el (FillText txt tx ty st) =
     Some (apply_ctm (ds_transform st) (tx - fst el / 2, ty - snd el / 2),
           apply_ctm (ds_transform st) (tx + fst el / 2, ty + snd el / 2))"
| "text_box el (DrawImage img dx dy dw dh m) = None"

definition streaming_text_boxes ::
  "exporter \<Rightarrow> measureText \<Rightarrow> layer \<Rightarrow> real \<Rightarrow> real \<Rightarrow> ((real \<times> real) \<times> (real \<times> real)) option list" where
  "streaming_text_boxes this metrics overlay canvasWidth canvasHeight =
     (let (scaleX, scaleY) = overlay_scale this canvasWidth canvasHeight;
          el = text_element metrics overlay ((scaleX + scaleY) / 2)
      in map (text_box el) (drawn (drawOverlay this metrics new_context overlay canvasWidth canvasHeight)))"

fun overlay_positions :: "filter list \<Rightarrow> (int \<times> int) list" where
  "overlay_positions [] = []"
| "overlay_positions (LoopScale k n fps fx fy s # fs) = overlay_positions fs"
| "overlay_positions (Overlay main s x y out # fs) = (x, y) # overlay_positions fs"

definition overlay_boxes :: "graph \<Rightarrow> ((real \<times> real) \<times> (real \<times> real)) list" where
  "overlay_boxes g =
     map (\<lambda>(p, sz). ((real_of_int (fst p), real_of_int (snd p)),
                      (real_of_int (fst p + fst sz), real_of_int (snd p + snd sz))))
       (zip (overlay_positions (filterComplex g)) (scale_sizes g))"


text \<open>A drawing of 100 by 60 pixels at (50, 50), and an exporter that knows the display size.\<close>

definition example_raster :: layer where
  "example_raster =
     \<lparr> l_id = ''3'', l_type = Some ''image'', l_src = Some \<lparr> img_width = 100, img_height = 60 \<rparr>,
       l_text = ''Drawing'', l_timing = \<lparr> t_start = 0, t_end = 3 \<rparr>,
       l_transform = \<lparr> tr_x = 50, tr_y = 50, tr_scale = (1, 1), tr_rotate = 0 \<rparr>,
       l_style = \<lparr> fontSize = 0, color = [], fontFamily = [], fontWeight = [], textAlign = [] \<rparr> \<rparr>"

definition example_exporter :: "real \<Rightarrow> real \<Rightarrow> exporter" where
  "example_exporter w h =
     constructor \<lparr> opt_startTime = None, opt_endTime = None, opt_overlays = None,
                   opt_displayWidth = Some w, opt_displayHeight = Some h \<rparr>"


section \<open>Properties of the export router\<close>

text \<open>
  C3: the routing function returns a method for every input, by this table: no layers at
  all gives the graph-based method \<open>'ffmpeg'\<close> whatever the browser offers; some layer and
  frame-codec access gives \<open>'webcodecs'\<close>; some layer and no frame-codec access gives
  \<open>'unsupported'\<close>.
\<close>

theorem getExportMethod_table:
  "getExportMethod win options =
     (if default_list (arg_textLayers options) = [] \<and> default_list (arg_drawingLayers options) = []
      then FFMPEG
      else if canUseWebCodecs win then WEBCODECS else UNSUPPORTED)"
  by (simp add: getExportMethod_def needsWebCodecs_def)

theorem getExportMethod_table_witness:
  "getExportMethod None \<lparr> arg_textLayers = None, arg_drawingLayers = (None :: nat list option) \<rparr>
     = FFMPEG \<and>
   getExportMethod (Some {''VideoEncoder'', ''VideoDecoder'', ''AudioEncoder'', ''AudioDecoder''})
     \<lparr> arg_textLayers = Some [example_timing_layer], arg_drawingLayers = (None :: nat list option) \<rparr>
     = WEBCODECS \<and>
   getExportMethod (Some {''VideoEncoder'', ''VideoDecoder''})
     \<lparr> arg_textLayers = Some [example_timing_layer], arg_drawingLayers = (None :: nat list option) \<rparr>
     = UNSUPPORTED"
  using getExportMethod_table [of None
      "\<lparr> arg_textLayers = None, arg_drawingLayers = (None :: nat list option) \<rparr>"]
    getExportMethod_table [of "Some {''VideoEncoder'', ''VideoDecoder'', ''AudioEncoder'', ''AudioDecoder''}"
      "\<lparr> arg_textLayers = Some [example_timing_layer], arg_drawingLayers = (None :: nat list option) \<rparr>"]
    getExportMethod_table [of "Some {''VideoEncoder'', ''VideoDecoder''}"
      "\<lparr> arg_textLayers = Some [example_timing_layer], arg_drawingLayers = (None :: nat list option) \<rparr>"]
  by (simp add: default_list_def canUseWebCodecs_def)

section \<open>Properties of the active-layer predicate\<close>

lemma inactive_before_trim:
  assumes "t < trimStart"
  shows "activeOverlays trimStart overlays t = [] \<and>
         getActiveOverlays overlays (t - trimStart) trimStart = []"
  using assms
  by (auto simp add: activeOverlays_def getActiveOverlays_def Let_def filter_empty_conv)

text \<open>
  C7: a layer is active at the playback time \<open>t\<close> exactly when
  \<open>timing.start \<le> t \<le> timing.end\<close>, both ends included, whatever the trim range is.  The
  time \<open>t\<close> is a time of the source video that an export plays, so it is not before the
  start of the trim range: the streaming exporter seeks there before it plays.  It compares
  the export-relative time \<open>t - trimStart\<close> with the shifted timing, and so does
  \<open>getActiveOverlays\<close>, which is handed that relative time.
\<close>

theorem active_within_trim:
  assumes "trimStart \<le> t"
  shows "(l \<in> set (activeOverlays trimStart overlays t) \<longleftrightarrow>
            l \<in> set overlays \<and> t_start (l_timing l) \<le> t \<and> t \<le> t_end (l_timing l)) \<and>
         (l \<in> set (getActiveOverlays overlays (t - trimStart) trimStart) \<longleftrightarrow>
            l \<in> set overlays \<and> t_start (l_timing l) \<le> t \<and> t \<le> t_end (l_timing l))"
  using assms
  by (auto simp add: activeOverlays_def getActiveOverlays_def Let_def)

theorem active_within_trim_witness:
  "example_timing_layer \<in> set (activeOverlays 1 [example_timing_layer] 2) \<and>
   example_timing_layer \<in> set (activeOverlays 1 [example_timing_layer] 5) \<and>
   example_timing_layer \<notin> set (activeOverlays 1 [example_timing_layer] 1.999) \<and>
   example_timing_layer \<notin> set (activeOverlays 1 [example_timing_layer] 5.001) \<and>
   example_timing_layer \<in> set (getActiveOverlays [example_timing_layer] (2 - 1) 1) \<and>
   example_timing_layer \<notin> set (getActiveOverlays [example_timing_layer] (5.001 - 1) 1)"
proof -
  have h: "(1::real) \<le> 2" "(1::real) \<le> 5" "(1::real) \<le> 1.999" "(1::real) \<le> 5.001"
    by simp_all
  from active_within_trim [OF h(1), of example_timing_layer "[example_timing_layer]"]
    active_within_trim [OF h(2), of example_timing_layer "[example_timing_layer]"]
    active_within_trim [OF h(3), of example_timing_layer "[example_timing_layer]"]
    active_within_trim [OF h(4), of example_timing_layer "[example_timing_layer]"]
  show ?thesis by (simp add: example_timing_layer_def)
qed

section \<open>Properties of the overlay store\<close>

text \<open>
  C8: an update with no fields returns the store as it was; an update leaves every property
  it does not name as it was, in particular an update of \<open>timing\<close> alone keeps \<open>transform\<close>;
  and a layer with another identifier is returned as it was.
\<close>

theorem handleUpdateText_frame:
  "handleUpdateText ident Map.empty layers = layers \<and>
   length (handleUpdateText ident updates layers) = length layers \<and>
   (\<forall>i < length layers. \<forall>k. k \<notin> dom updates \<longrightarrow>
      (handleUpdateText ident updates layers ! i) k = (layers ! i) k) \<and>
   (\<forall>i < length layers.
      (handleUpdateText ident [''timing'' \<mapsto> v] layers ! i) ''transform'' =
        (layers ! i) ''transform'') \<and>
   (\<forall>i < length layers. (layers ! i) ''id'' \<noteq> Some ident \<longrightarrow>
      handleUpdateText ident updates layers ! i = layers ! i)"
proof -
  have "handleUpdateText ident Map.empty layers = layers"
    by (simp add: handleUpdateText_def spread_def map_idI)
  moreover have "length (handleUpdateText ident updates layers) = length layers"
    by (simp add: handleUpdateText_def)
  moreover have "\<forall>i < length layers. \<forall>k. k \<notin> dom updates \<longrightarrow>
      (handleUpdateText ident updates layers ! i) k = (layers ! i) k"
    by (auto simp add: handleUpdateText_def spread_def map_add_def split: option.splits)
  moreover have "\<forall>i < length layers.
      (handleUpdateText ident [''timing'' \<mapsto> v] layers ! i) ''transform'' =
        (layers ! i) ''transform''"
    by (simp add: handleUpdateText_def spread_def map_add_def)
  moreover have "\<forall>i < length layers. (layers ! i) ''id'' \<noteq> Some ident \<longrightarrow>
      handleUpdateText ident updates layers ! i = layers ! i"
    by (simp add: handleUpdateText_def)
  ultimately show ?thesis by blast
qed

theorem handleUpdateText_frame_witness:
  "handleUpdateText (Str ''1'') Map.empty example_store = example_store \<and>
   (handleUpdateText (Str ''1'') [''timing'' \<mapsto> Obj [(''start'', Num 2), (''end'', Num 3)]]
      example_store ! 0) ''transform'' = Some (Obj [(''x'', Num 100), (''y'', Num 100)]) \<and>
   (handleUpdateText (Str ''1'') [''timing'' \<mapsto> Obj [(''start'', Num 2), (''end'', Num 3)]]
      example_store ! 0) ''text'' = Some (Str ''hello'') \<and>
   handleUpdateText (Str ''1'') [''timing'' \<mapsto> Obj [(''start'', Num 2), (''end'', Num 3)]]
      example_store ! 1 = example_store ! 1"
proof -
  let ?u = "[''timing'' \<mapsto> Obj [(''start'', Num 2), (''end'', Num 3)]]"
  note t = handleUpdateText_frame [of "Str ''1''" example_store ?u "Obj [(''start'', Num 2), (''end'', Num 3)]"]
  have len: "length example_store = 2" by (simp add: example_store_def)
  have k: "''text'' \<notin> dom ?u" by simp
  have other: "(example_store ! 1) ''id'' \<noteq> Some (Str ''1'')" by (simp add: example_store_def)
  have a: "handleUpdateText (Str ''1'') Map.empty example_store = example_store" using t by blast
  have b: "(handleUpdateText (Str ''1'') ?u example_store ! 0) ''transform'' = (example_store ! 0) ''transform''"
    using t len by simp
  have c: "(handleUpdateText (Str ''1'') ?u example_store ! 0) ''text'' = (example_store ! 0) ''text''"
    using t len k by simp
  have d: "handleUpdateText (Str ''1'') ?u example_store ! 1 = example_store ! 1"
    using t len other by simp
  show ?thesis using a b c d by (simp add: example_store_def)
qed

section \<open>Properties of the streaming exporter\<close>

text \<open>
  C10: with \<open>endTime\<close> zero, \<open>null\<close> or left out, the export lasts from the start time to
  the end of the source video, so an end of exactly zero cannot be asked for.
\<close>

theorem exportDuration_no_trim_end:
  assumes "opt_endTime options = None \<or> opt_endTime options = Some 0"
  shows "exportDuration (constructor options) video_duration =
           video_duration - (case opt_startTime options of None \<Rightarrow> 0 | Some s \<Rightarrow> s)"
  using assms
  by (auto simp add: exportDuration_def constructor_def or_default_def or_null_def js_or_def
      split: option.splits)

theorem exportDuration_no_trim_end_witness:
  "exportDuration (constructor \<lparr> opt_startTime = Some 2, opt_endTime = Some 0,
      opt_overlays = None, opt_displayWidth = None, opt_displayHeight = None \<rparr>) 10 = 8"
  using exportDuration_no_trim_end
    [of "\<lparr> opt_startTime = Some 2, opt_endTime = Some 0,
      opt_overlays = None, opt_displayWidth = None, opt_displayHeight = None \<rparr>" 10]
  by simp

lemma no_data_kept:
  assumes "\<forall>n. DataAvailable (Some n) \<in> set evs \<longrightarrow> n = 0"
    and "j_recordedChunks j = []"
    and "j_promise j = None \<or> j_promise j = Some (Failed ''No data was recorded'')"
  shows "j_recordedChunks (foldl (job_step this mimeType d vd) j evs) = [] \<and>
         (j_promise (foldl (job_step this mimeType d vd) j evs) = None \<or>
          j_promise (foldl (job_step this mimeType d vd) j evs) =
            Some (Failed ''No data was recorded''))"
  using assms
proof (induction evs arbitrary: j)
  case Nil
  then show ?case by simp
next
  case (Cons e evs)
  have "j_recordedChunks (job_step this mimeType d vd j e) = [] \<and>
        (j_promise (job_step this mimeType d vd j e) = None \<or>
         j_promise (job_step this mimeType d vd j e) = Some (Failed ''No data was recorded''))"
  proof (cases e)
    case (DataAvailable data)
    with Cons.prems(1) have "ondataavailable data [] = []"
      by (cases data) (auto simp add: ondataavailable_def)
    with Cons.prems DataAvailable show ?thesis by simp
  next
    case StopEvent
    with Cons.prems show ?thesis by (auto simp add: onstop_def)
  qed (use Cons.prems in \<open>auto simp add: abort_def recorder_stop_def renderFrame_def Let_def\<close>)
  moreover have "\<forall>n. DataAvailable (Some n) \<in> set evs \<longrightarrow> n = 0"
    using Cons.prems(1) by simp
  ultimately show ?case using Cons.IH [of "job_step this mimeType d vd j e"] by simp
qed

lemma zero_chunks_never_complete:
  assumes "\<forall>n. DataAvailable (Some n) \<in> set evs \<longrightarrow> n = 0"
  shows "export this mimeType video_duration evs = None \<or>
         export this mimeType video_duration evs = Some (Failed ''No data was recorded'')"
proof -
  have "j_promise started_job = None" "j_recordedChunks started_job = []"
    by (simp_all add: started_job_def)
  with no_data_kept [OF assms, of started_job this mimeType
      "exportDuration this video_duration" video_duration]
  show ?thesis by (auto simp add: export_def processVideoFrames_def)
qed

lemma stopped_unheard_stays_pending:
  assumes "j_state j = Inactive" "\<not> j_stop_queued j" "j_promise j = None"
  shows "j_promise (foldl (job_step this mimeType d vd) j evs) = None"
  using assms
proof (induction evs arbitrary: j)
  case Nil
  then show ?case by simp
next
  case (Cons e evs)
  have "j_state (job_step this mimeType d vd j e) = Inactive \<and>
        \<not> j_stop_queued (job_step this mimeType d vd j e) \<and>
        j_promise (job_step this mimeType d vd j e) = None"
    using Cons.prems
    by (cases e) (auto simp add: abort_def recorder_stop_def renderFrame_def Let_def)
  then show ?case using Cons.IH [of "job_step this mimeType d vd j e"] by simp
qed

lemma abort_during_startup_hangs:
  "export this mimeType video_duration (Abort # StopEvent # evs) = None"
proof -
  let ?step = "job_step this mimeType (exportDuration this video_duration) video_duration"
  let ?j = "?step (?step started_job Abort) StopEvent"
  have "j_state ?j = Inactive" "\<not> j_stop_queued ?j" "j_promise ?j = None"
    by (simp_all add: started_job_def abort_def recorder_stop_def)
  then have "j_promise (foldl ?step ?j evs) = None"
    by (rule stopped_unheard_stays_pending)
  then show ?thesis by (simp add: export_def processVideoFrames_def)
qed

lemma end_of_range_fails:
  "export (constructor \<lparr> opt_startTime = None, opt_endTime = None,
      opt_overlays = None, opt_displayWidth = None, opt_displayHeight = None \<rparr>) ''video/webm'' 10
     [Started 0, Frame 1, Frame 10, DataAvailable (Some 0), StopEvent]
   = Some (Failed ''No data was recorded'')"
  by (simp add: export_def processVideoFrames_def started_job_def renderFrame_def
      recorder_stop_def exportDuration_def constructor_def or_default_def or_null_def js_or_def
      ondataavailable_def onstop_def)

lemma watchdog_fails:
  "export (constructor \<lparr> opt_startTime = None, opt_endTime = None,
      opt_overlays = None, opt_displayWidth = None, opt_displayHeight = None \<rparr>) ''video/webm'' 10
     [Started 0, Watchdog, DataAvailable None, StopEvent]
   = Some (Failed ''No data was recorded'')"
  by (simp add: export_def processVideoFrames_def started_job_def renderFrame_def
      recorder_stop_def exportDuration_def constructor_def or_default_def or_null_def js_or_def
      ondataavailable_def onstop_def)

text \<open>
  C9: a job whose sink receives no data never completes with an output, and it fails with
  \<open>No data was recorded\<close> when the stop of the recorder reaches \<open>onstop\<close>, as at the end
  of the range and after the safety timeout (the lemmas above).  But \<open>onstop\<close> is only
  installed once the seek, the pictures and \<open>video.play()\<close> are through: when \<open>abort()\<close>
  comes before that, the recorder stops unheard, neither \<open>renderFrame\<close> nor the safety
  timeout can stop it again, and the job stays pending for ever instead of failing.
\<close>

theorem abort_before_onstop_never_settles:
  "export (constructor \<lparr> opt_startTime = None, opt_endTime = None,
      opt_overlays = None, opt_displayWidth = None, opt_displayHeight = None \<rparr>) ''video/webm'' 10
     [Abort, DataAvailable (Some 0), StopEvent, Started 0, Frame 1, Watchdog, StopEvent]
   = None"
  by (simp add: export_def processVideoFrames_def started_job_def renderFrame_def abort_def
      recorder_stop_def exportDuration_def constructor_def or_default_def or_null_def js_or_def
      ondataavailable_def)

section \<open>Properties of the timeline layout\<close>

lemma place_cases:
  "(\<exists>rs1 row rs2. rows = rs1 @ row # rs2 \<and> layer_end (last row) \<le> layer_start l \<and>
       place l rows = rs1 @ (row @ [l]) # rs2) \<or>
   ((\<forall>row \<in> set rows. \<not> layer_end (last row) \<le> layer_start l) \<and> place l rows = rows @ [[l]])"
proof (induction rows)
  case Nil
  show ?case by simp
next
  case (Cons r rows)
  show ?case
  proof (cases "layer_end (last r) \<le> layer_start l")
    case True
    then have "r # rows = [] @ r # rows \<and> layer_end (last r) \<le> layer_start l \<and>
       place l (r # rows) = [] @ (r @ [l]) # rows" by simp
    then show ?thesis by blast
  next
    case False
    from Cons.IH show ?thesis
    proof
      assume "\<exists>rs1 row rs2. rows = rs1 @ row # rs2 \<and> layer_end (last row) \<le> layer_start l \<and>
       place l rows = rs1 @ (row @ [l]) # rs2"
      then obtain rs1 row rs2 where h: "rows = rs1 @ row # rs2" "layer_end (last row) \<le> layer_start l"
        "place l rows = rs1 @ (row @ [l]) # rs2" by blast
      then have "r # rows = (r # rs1) @ row # rs2 \<and> layer_end (last row) \<le> layer_start l \<and>
       place l (r # rows) = (r # rs1) @ (row @ [l]) # rs2" using False by simp
      then show ?thesis by blast
    next
      assume "(\<forall>row \<in> set rows. \<not> layer_end (last row) \<le> layer_start l) \<and> place l rows = rows @ [[l]]"
      then show ?thesis using False by simp
    qed
  qed
qed

lemma count_rows_le:
  assumes "\<forall>row \<in> set rows. row \<noteq> [] \<and> P (last row)"
  shows "length rows \<le> length (filter P (concat rows))"
  using assms
proof (induction rows)
  case Nil
  show ?case by simp
next
  case (Cons r rows)
  then have "r \<noteq> []" "P (last r)" by simp_all
  then have "last r \<in> set (filter P r)" by simp
  then have "1 \<le> length (filter P r)" by (metis One_nat_def Suc_leI length_pos_if_in_set)
  with Cons show ?case by simp
qed

lemma filter_length_mset:
  assumes "mset xs = mset ys"
  shows "length (filter P xs) = length (filter P ys)"
proof -
  have "mset (filter P xs) = mset (filter P ys)" using assms by simp
  then show ?thesis by (rule mset_eq_length)
qed

lemma non_overlapping_covers:
  assumes "non_overlapping row"
  shows "length (filter (covers p) row) \<le> 1"
  using assms
proof (induction row)
  case Nil
  show ?case by simp
next
  case (Cons a row)
  then have IH: "length (filter (covers p) row) \<le> 1" and c: "\<forall>b \<in> set row. compatible a b"
    by (simp_all add: non_overlapping_def)
  show ?case
  proof (cases "covers p a")
    case True
    have "\<forall>b \<in> set row. \<not> covers p b"
    proof
      fix b assume "b \<in> set row"
      with c have "compatible a b" by blast
      with True show "\<not> covers p b" by (auto simp add: compatible_def covers_def)
    qed
    then have "filter (covers p) row = []" by (simp add: filter_empty_conv)
    with True show ?thesis by simp
  next
    case False
    with IH show ?thesis by simp
  qed
qed

lemma packing_depth:
  assumes "is_packing layers rows"
  shows "length (filter (covers p) layers) \<le> length rows"
proof -
  have "\<forall>row \<in> set rows. non_overlapping row \<Longrightarrow> length (filter (covers p) (concat rows)) \<le> length rows"
  proof (induction rows)
    case Nil
    show ?case by simp
  next
    case (Cons r rows)
    from Cons.prems have "non_overlapping r" by simp
    then have "length (filter (covers p) r) \<le> 1" by (rule non_overlapping_covers)
    with Cons show ?case by simp
  qed
  moreover have "length (filter (covers p) (concat rows)) = length (filter (covers p) layers)"
    using assms by (intro filter_length_mset) (simp add: is_packing_def)
  ultimately show ?thesis using assms by (simp add: is_packing_def)
qed

lemma chain_snoc:
  assumes "chain row" "row \<noteq> []" "layer_end (last row) \<le> layer_start l"
    "\<forall>a \<in> set row. layer_start a < layer_end a"
  shows "chain (row @ [l])"
proof -
  have "\<forall>a \<in> set row. layer_end a \<le> layer_start l"
  proof
    fix a assume a: "a \<in> set row"
    show "layer_end a \<le> layer_start l"
    proof (cases "a = last row")
      case True
      with assms(3) show ?thesis by simp
    next
      case False
      with a assms(2) have "a \<in> set (butlast row)"
        by (metis append_butlast_last_id in_set_conv_decomp set_ConsD rotate1.simps(2) set_rotate1)
      moreover have "sorted_wrt (\<lambda>a b. layer_end a \<le> layer_start b) (butlast row @ [last row])"
        using assms(1,2) by (simp add: chain_def)
      ultimately have "layer_end a \<le> layer_start (last row)"
        by (simp add: sorted_wrt_append)
      moreover have "layer_start (last row) < layer_end (last row)"
        using assms(2,4) by simp
      ultimately show ?thesis using assms(3) by linarith
    qed
  qed
  with assms(1) show ?thesis by (simp add: chain_def sorted_wrt_append)
qed

lemma rows_inv_place:
  assumes inv: "rows_inv done rows"
    and sorted: "\<forall>a \<in> set done. layer_start a \<le> layer_start l"
    and valid: "\<forall>a \<in> set (l # done). layer_start a < layer_end a"
  shows "rows_inv (done @ [l]) (place l rows)"
proof -
  from inv have ne: "\<forall>row \<in> set rows. row \<noteq> [] \<and> chain row"
    and ms: "mset (concat rows) = mset done"
    and depth: "rows = [] \<or> (\<exists>p. length rows \<le> length (filter (covers p) done))"
    by (simp_all add: rows_inv_def)
  have sub: "\<forall>row \<in> set rows. set row \<subseteq> set done"
  proof
    fix row assume "row \<in> set rows"
    then have "set row \<subseteq> set (concat rows)" by auto
    also have "set (concat rows) = set done" using ms by (rule mset_eq_setD)
    finally show "set row \<subseteq> set done" .
  qed
  from place_cases [of rows l] show ?thesis
  proof
    assume "\<exists>rs1 row rs2. rows = rs1 @ row # rs2 \<and> layer_end (last row) \<le> layer_start l \<and>
       place l rows = rs1 @ (row @ [l]) # rs2"
    then obtain rs1 row rs2 where h: "rows = rs1 @ row # rs2" "layer_end (last row) \<le> layer_start l"
        "place l rows = rs1 @ (row @ [l]) # rs2" by blast
    have rowin: "row \<in> set rows" using h(1) by simp
    then have "chain row" "row \<noteq> []" using ne by simp_all
    moreover have "\<forall>a \<in> set row. layer_start a < layer_end a" using sub rowin valid by auto
    ultimately have "chain (row @ [l])" using h(2) by (intro chain_snoc)
    then have 1: "\<forall>r \<in> set (place l rows). r \<noteq> [] \<and> chain r"
      using ne h(1,3) by auto
    have 2: "mset (concat (place l rows)) = mset (done @ [l])"
      using ms h(1,3) by simp
    have len: "length (place l rows) = length rows" using h(1,3) by simp
    from depth have "\<exists>p. length rows \<le> length (filter (covers p) done)"
      using h(1) by simp
    then obtain p where "length rows \<le> length (filter (covers p) done)" by blast
    then have "length (place l rows) \<le> length (filter (covers p) (done @ [l]))"
      using len by simp
    then have 3: "\<exists>p. length (place l rows) \<le> length (filter (covers p) (done @ [l]))" by blast
    from 1 2 3 show ?thesis by (simp add: rows_inv_def)
  next
    assume h: "(\<forall>row \<in> set rows. \<not> layer_end (last row) \<le> layer_start l) \<and> place l rows = rows @ [[l]]"
    have 1: "\<forall>r \<in> set (place l rows). r \<noteq> [] \<and> chain r"
      using ne h by (auto simp add: chain_def)
    have 2: "mset (concat (place l rows)) = mset (done @ [l])"
      using ms h by simp
    let ?p = "layer_start l"
    have "\<forall>row \<in> set rows. row \<noteq> [] \<and> covers ?p (last row)"
    proof
      fix row assume r: "row \<in> set rows"
      then have rne: "row \<noteq> []" using ne by simp
      then have "last row \<in> set row" by simp
      then have "last row \<in> set done" using sub r by blast
      then have "layer_start (last row) \<le> ?p" using sorted by simp
      moreover have "?p < layer_end (last row)" using h r by auto
      ultimately show "row \<noteq> [] \<and> covers ?p (last row)" using rne by (simp add: covers_def)
    qed
    then have "length rows \<le> length (filter (covers ?p) (concat rows))"
      by (rule count_rows_le)
    also have "\<dots> = length (filter (covers ?p) done)"
      using ms by (rule filter_length_mset)
    finally have "length rows \<le> length (filter (covers ?p) done)" .
    moreover have "covers ?p l" using valid by (simp add: covers_def)
    ultimately have "length (place l rows) \<le> length (filter (covers ?p) (done @ [l]))"
      using h by simp
    then have 3: "\<exists>p. length (place l rows) \<le> length (filter (covers p) (done @ [l]))" by blast
    from 1 2 3 show ?thesis by (simp add: rows_inv_def)
  qed
qed

lemma rows_inv_foldl:
  assumes "sorted (map layer_start xs)" "\<forall>a \<in> set xs. layer_start a < layer_end a"
  shows "rows_inv xs (foldl (\<lambda>rows layer. place layer rows) [] xs)"
  using assms
proof (induction xs rule: rev_induct)
  case Nil
  show ?case by (simp add: rows_inv_def)
next
  case (snoc l xs)
  then have "rows_inv xs (foldl (\<lambda>rows layer. place layer rows) [] xs)"
    by (simp add: sorted_append)
  moreover have "\<forall>a \<in> set xs. layer_start a \<le> layer_start l"
    using snoc.prems(1) by (simp add: sorted_append)
  moreover have "\<forall>a \<in> set (l # xs). layer_start a < layer_end a"
    using snoc.prems(2) by simp
  ultimately have "rows_inv (xs @ [l]) (place l (foldl (\<lambda>rows layer. place layer rows) [] xs))"
    by (rule rows_inv_place)
  then show ?case by simp
qed

lemma chain_non_overlapping:
  assumes "chain row"
  shows "non_overlapping row"
  using assms unfolding chain_def non_overlapping_def
  by (rule sorted_wrt_mono_rel [rotated]) (simp add: compatible_def)

lemma layout_rows_inv:
  assumes "\<forall>a \<in> set layers. layer_start a < layer_end a"
  shows "rows_inv (sort_key layer_start layers) (layout_rows layers)"
  unfolding layout_rows_def Let_def
  using assms by (intro rows_inv_foldl) simp_all

lemma layout_rows_packing:
  assumes "\<forall>a \<in> set layers. layer_start a < layer_end a"
  shows "is_packing layers (layout_rows layers)"
  using layout_rows_inv [OF assms]
  by (simp add: rows_inv_def is_packing_def chain_non_overlapping)

lemma layout_rows_least:
  assumes "\<forall>a \<in> set layers. layer_start a < layer_end a" "is_packing layers rs"
  shows "length (layout_rows layers) \<le> length rs"
proof (cases "layout_rows layers = []")
  case True
  then show ?thesis by simp
next
  case False
  with layout_rows_inv [OF assms(1)] obtain p where
    "length (layout_rows layers) \<le> length (filter (covers p) (sort_key layer_start layers))"
    by (auto simp add: rows_inv_def)
  also have "\<dots> = length (filter (covers p) layers)"
    by (rule filter_length_mset) simp
  also have "\<dots> \<le> length rs" using assms(2) by (rule packing_depth)
  finally show ?thesis .
qed

lemma totalRows_minimal:
  assumes "\<forall>a \<in> set layers. layer_start a < layer_end a"
  shows "snd (getLayerRows layers) = min_row_count layers"
proof -
  have "(LEAST k. \<exists>rows. is_packing layers rows \<and> length rows = k) = length (layout_rows layers)"
  proof (rule Least_equality)
    show "\<exists>rows. is_packing layers rows \<and> length rows = length (layout_rows layers)"
      using layout_rows_packing [OF assms] by blast
  next
    fix k assume "\<exists>rows. is_packing layers rows \<and> length rows = k"
    then show "length (layout_rows layers) \<le> k"
      using layout_rows_least [OF assms] by blast
  qed
  then show ?thesis by (simp add: getLayerRows_def min_row_count_def Let_def)
qed

lemma sort_key_least_first:
  assumes "l \<in> set xs" "\<forall>m \<in> set xs. m \<noteq> l \<longrightarrow> f l < f m"
  shows "\<exists>rest. sort_key f xs = l # rest"
proof -
  have "set (sort_key f xs) = set xs" by simp
  with assms(1) obtain y ys where ys: "sort_key f xs = y # ys"
    by (cases "sort_key f xs") auto
  have "sorted (map f (sort_key f xs))" by (rule sorted_sort_key)
  moreover have "l \<in> set (y # ys)" using assms(1) ys by (metis set_sort)
  ultimately have le: "f y \<le> f l" using ys by auto
  have "y \<in> set xs" using ys by (metis list.set_intros(1) set_sort)
  with assms(2) le have "y = l" by force
  with ys show ?thesis by simp
qed

lemma place_keeps_first:
  assumes "\<exists>r rs. rows = (l # r) # rs"
  shows "\<exists>r rs. place m rows = (l # r) # rs"
proof -
  from assms obtain r rs where "rows = (l # r) # rs" by blast
  then show ?thesis by (simp add: Let_def)
qed

lemma foldl_place_keeps_first:
  assumes "\<exists>r rs. rows = (l # r) # rs"
  shows "\<exists>r rs. foldl (\<lambda>rows layer. place layer rows) rows xs = (l # r) # rs"
  using assms
proof (induction xs arbitrary: rows)
  case Nil
  then show ?case by simp
next
  case (Cons m xs)
  from Cons.prems have "\<exists>r rs. place m rows = (l # r) # rs" by (rule place_keeps_first)
  then show ?case using Cons.IH by simp
qed

lemma foldl_assign:
  "foldl (\<lambda>m layer. m(l_id layer \<mapsto> i)) m row k = (if k \<in> l_id ` set row then Some i else m k)"
  by (induction row arbitrary: m) auto

lemma assign_rows_other:
  assumes "k \<notin> l_id ` set (concat rows)"
  shows "assign_rows i rows m k = m k"
  using assms
proof (induction rows arbitrary: i m)
  case Nil
  show ?case by simp
next
  case (Cons r rows)
  have "k \<notin> l_id ` set (concat rows)" using Cons.prems by auto
  then have "assign_rows (i + 1) rows (foldl (\<lambda>m layer. m(l_id layer \<mapsto> i)) m r) k =
      foldl (\<lambda>m layer. m(l_id layer \<mapsto> i)) m r k" by (rule Cons.IH)
  also have "\<dots> = m k" using Cons.prems by (auto simp add: foldl_assign)
  finally show ?case by simp
qed

lemma earliest_layer_first_row:
  assumes valid: "\<forall>a \<in> set layers. layer_start a < layer_end a"
    and l: "l \<in> set layers"
    and first: "\<forall>m \<in> set layers. m \<noteq> l \<longrightarrow> layer_end l \<le> layer_start m"
  shows "\<exists>r rs. layout_rows layers = (l # r) # rs"
proof -
  have lt: "\<forall>m \<in> set layers. m \<noteq> l \<longrightarrow> layer_start l < layer_start m"
  proof (intro ballI impI)
    fix m assume m: "m \<in> set layers" "m \<noteq> l"
    with first have "layer_end l \<le> layer_start m" by simp
    moreover have "layer_start l < layer_end l" using valid l by simp
    ultimately show "layer_start l < layer_start m" by linarith
  qed
  have "\<exists>rest. sort_key layer_start layers = l # rest"
    using l lt by (rule sort_key_least_first)
  then obtain rest where sorted: "sort_key layer_start layers = l # rest" by (rule exE)
  have "\<exists>r rs. foldl (\<lambda>rows layer. place layer rows) [[l]] rest = (l # r) # rs"
    by (rule foldl_place_keeps_first) simp
  then show ?thesis using sorted by (simp add: layout_rows_def)
qed

lemma first_row_map:
  assumes valid: "\<forall>a \<in> set layers. layer_start a < layer_end a"
    and rows: "layout_rows layers = (l # r) # rs"
    and once: "length (filter (\<lambda>m. l_id m = l_id l) layers) = 1"
  shows "fst (getLayerRows layers) (l_id l) = Some 0"
proof -
  have "mset (concat (layout_rows layers)) = mset layers"
    using layout_rows_packing [OF valid] by (simp add: is_packing_def)
  then have "length (filter (\<lambda>m. l_id m = l_id l) (concat (layout_rows layers))) =
      length (filter (\<lambda>m. l_id m = l_id l) layers)"
    by (rule filter_length_mset)
  then have "filter (\<lambda>m. l_id m = l_id l) (concat rs) = []"
    using rows once by simp
  then have "\<forall>x \<in> set (concat rs). l_id x \<noteq> l_id l"
    by (simp add: filter_empty_conv)
  then have "l_id l \<notin> l_id ` set (concat rs)" by force
  then have "assign_rows 1 rs (foldl (\<lambda>m layer. m(l_id layer \<mapsto> 0)) Map.empty (l # r)) (l_id l) =
      foldl (\<lambda>m layer. m(l_id layer \<mapsto> 0)) Map.empty (l # r) (l_id l)"
    by (rule assign_rows_other)
  also have "\<dots> = Some 0" by (simp only: foldl_assign) simp
  finally show ?thesis using rows by (simp add: getLayerRows_def Let_def)
qed

text \<open>
  C4, as the code has it: for layers whose timing obeys \<open>start < end\<close>, the number of rows
  of the timeline layout is the minimum number of rows of any packing of the layers into
  rows without overlap; and a layer that ends no later than every other layer starts is
  put first into row 0, and the row map gives its identifier row 0 when no other layer of
  the store carries that identifier.
\<close>

theorem getLayerRows_minimal:
  assumes "\<forall>a \<in> set layers. layer_start a < layer_end a"
  shows "snd (getLayerRows layers) = min_row_count layers \<and>
         (\<forall>l \<in> set layers.
            (\<forall>m \<in> set layers. m \<noteq> l \<longrightarrow> layer_end l \<le> layer_start m) \<longrightarrow>
            (\<exists>r rs. layout_rows layers = (l # r) # rs) \<and>
            (length (filter (\<lambda>m. l_id m = l_id l) layers) = 1 \<longrightarrow>
               fst (getLayerRows layers) (l_id l) = Some 0))"
proof -
  have "\<forall>l \<in> set layers.
            (\<forall>m \<in> set layers. m \<noteq> l \<longrightarrow> layer_end l \<le> layer_start m) \<longrightarrow>
            (\<exists>r rs. layout_rows layers = (l # r) # rs) \<and>
            (length (filter (\<lambda>m. l_id m = l_id l) layers) = 1 \<longrightarrow>
               fst (getLayerRows layers) (l_id l) = Some 0)"
  proof (intro ballI impI)
    fix l assume l: "l \<in> set layers"
      and first: "\<forall>m \<in> set layers. m \<noteq> l \<longrightarrow> layer_end l \<le> layer_start m"
    from assms l first obtain r rs where rows: "layout_rows layers = (l # r) # rs"
      using earliest_layer_first_row by blast
    have "length (filter (\<lambda>m. l_id m = l_id l) layers) = 1 \<longrightarrow>
               fst (getLayerRows layers) (l_id l) = Some 0"
      using first_row_map [OF assms rows] by blast
    with rows show "(\<exists>r rs. layout_rows layers = (l # r) # rs) \<and>
            (length (filter (\<lambda>m. l_id m = l_id l) layers) = 1 \<longrightarrow>
               fst (getLayerRows layers) (l_id l) = Some 0)" by blast
  qed
  with totalRows_minimal [OF assms] show ?thesis by blast
qed

lemma example_times:
  "layer_start timeline_a = 0" "layer_start timeline_b = 2" "layer_start timeline_c = 3"
  "layer_end timeline_a = 2" "layer_end timeline_b = 6" "layer_end timeline_c = 5"
  by (simp_all add: timeline_a_def timeline_b_def timeline_c_def layer_start_def layer_end_def)

lemma example_sorted:
  "sort_key layer_start [timeline_c, timeline_a, timeline_b] = [timeline_a, timeline_b, timeline_c]"
  by (simp add: example_times)

lemma example_rows:
  "layout_rows [timeline_c, timeline_a, timeline_b] = [[timeline_a, timeline_b], [timeline_c]]"
  by (simp add: layout_rows_def example_sorted example_times)

theorem getLayerRows_minimal_witness:
  "min_row_count [timeline_c, timeline_a, timeline_b] = 2 \<and>
   fst (getLayerRows [timeline_c, timeline_a, timeline_b]) ''1'' = Some 0"
proof -
  have valid: "\<forall>a \<in> set [timeline_c, timeline_a, timeline_b]. layer_start a < layer_end a"
    by (simp add: example_times)
  have first: "\<forall>m \<in> set [timeline_c, timeline_a, timeline_b].
      m \<noteq> timeline_a \<longrightarrow> layer_end timeline_a \<le> layer_start m"
    by (simp add: example_times)
  have once: "length (filter (\<lambda>m. l_id m = l_id timeline_a) [timeline_c, timeline_a, timeline_b]) = 1"
    by (simp add: timeline_a_def timeline_b_def timeline_c_def)
  have id: "l_id timeline_a = ''1''" by (simp add: timeline_a_def)
  have n: "snd (getLayerRows [timeline_c, timeline_a, timeline_b]) = 2"
    by (simp add: getLayerRows_def example_rows)
  have a: "timeline_a \<in> set [timeline_c, timeline_a, timeline_b]" by simp
  note t = getLayerRows_minimal [OF valid]
  from t n have "min_row_count [timeline_c, timeline_a, timeline_b] = 2" by simp
  moreover from t a first once
  have "fst (getLayerRows [timeline_c, timeline_a, timeline_b]) (l_id timeline_a) = Some 0"
    by blast
  ultimately show ?thesis using id by simp
qed

lemma shared_id_overwrites_row:
  "layout_rows [shared_l, shared_m, shared_n] = [[shared_l, shared_m], [shared_n]] \<and>
   fst (getLayerRows [shared_l, shared_m, shared_n]) (l_id shared_l) = Some 1"
proof -
  have times: "layer_start shared_l = 0" "layer_end shared_l = 1" "layer_start shared_m = 1"
    "layer_end shared_m = 3" "layer_start shared_n = 2" "layer_end shared_n = 4"
    by (simp_all add: shared_l_def shared_m_def shared_n_def layer_start_def layer_end_def)
  have ids: "l_id shared_l = ''7''" "l_id shared_m = ''8''" "l_id shared_n = ''7''"
    by (simp_all add: shared_l_def shared_m_def shared_n_def)
  have rows: "layout_rows [shared_l, shared_m, shared_n] = [[shared_l, shared_m], [shared_n]]"
    by (simp add: layout_rows_def times)
  then show ?thesis by (simp add: getLayerRows_def ids)
qed

lemma zero_length_times:
  "layer_start drawing_at_0 = 0" "layer_end drawing_at_0 = 0"
  "layer_start text_at_0 = 0" "layer_end text_at_0 = 5"
  "layer_start drawing_at_0' = 0" "layer_end drawing_at_0' = 0"
  by (simp_all add: drawing_at_0_def text_at_0_def drawing_at_0'_def layer_start_def layer_end_def)

lemma zero_length_rows:
  "layout_rows [drawing_at_0, text_at_0, drawing_at_0'] =
     [[drawing_at_0, text_at_0], [drawing_at_0']]"
  "layout_rows [text_at_0, drawing_at_0] = [[text_at_0], [drawing_at_0]]"
  by (simp_all add: layout_rows_def zero_length_times)

lemma zero_length_packing:
  "is_packing [drawing_at_0, text_at_0, drawing_at_0'] [[drawing_at_0, drawing_at_0', text_at_0]]"
  by (simp add: is_packing_def non_overlapping_def compatible_def zero_length_times)

lemma zero_length_min:
  "min_row_count [drawing_at_0, text_at_0, drawing_at_0'] = 1"
  unfolding min_row_count_def
proof (rule Least_equality)
  show "\<exists>rows. is_packing [drawing_at_0, text_at_0, drawing_at_0'] rows \<and> length rows = 1"
    using zero_length_packing by (intro exI [of _ "[[drawing_at_0, drawing_at_0', text_at_0]]"]) simp
next
  fix k assume "\<exists>rows. is_packing [drawing_at_0, text_at_0, drawing_at_0'] rows \<and> length rows = k"
  then obtain rows where "is_packing [drawing_at_0, text_at_0, drawing_at_0'] rows" "length rows = k"
    by blast
  then have "rows \<noteq> []" by (auto simp add: is_packing_def)
  with \<open>length rows = k\<close> show "1 \<le> k" by (cases rows) auto
qed

text \<open>
  C4 as the specification words it, for every set of layers, fails on layers of length
  zero, which \<open>handleSaveDrawing\<close> makes while the duration of the video is still 0: next
  to a text from 0 to 5, two such drawings at 0 take two rows where one row holds all
  three, and a drawing at 0 that comes after the text in the store is put into row 1 though
  it ends no later than the text starts.
\<close>

theorem zero_length_layers_counterexample:
  "snd (getLayerRows [drawing_at_0, text_at_0, drawing_at_0']) = 2 \<and>
   min_row_count [drawing_at_0, text_at_0, drawing_at_0'] = 1 \<and>
   layer_end drawing_at_0 \<le> layer_start text_at_0 \<and>
   fst (getLayerRows [text_at_0, drawing_at_0]) (l_id drawing_at_0) = Some 1"
proof -
  have ids: "l_id drawing_at_0 = ''4''" "l_id text_at_0 = ''5''"
    by (simp_all add: drawing_at_0_def text_at_0_def)
  have "snd (getLayerRows [drawing_at_0, text_at_0, drawing_at_0']) = 2"
    by (simp add: getLayerRows_def zero_length_rows)
  moreover have "layer_end drawing_at_0 \<le> layer_start text_at_0"
    by (simp add: zero_length_times)
  moreover have "fst (getLayerRows [text_at_0, drawing_at_0]) (l_id drawing_at_0) = Some 1"
    by (simp add: getLayerRows_def zero_length_rows ids)
  ultimately show ?thesis using zero_length_min by simp
qed

section \<open>Properties of the graph-based export\<close>

lemma loop_counts_append:
  "loop_counts (xs @ ys) = loop_counts xs @ loop_counts ys"
  by (induction xs rule: loop_counts.induct) simp_all

lemma add_layer_loop_counts:
  assumes "add_layer metrics duration scaleX scaleY layer g = Some g'"
  shows "loop_counts (filterComplex g') =
           loop_counts (filterComplex g) @ [Math_ceil (duration * 30) + 10]"
  using assms
  by (auto simp add: add_layer_def Let_def loop_counts_append split: if_splits option.splits)

lemma graph_loop_loop_counts:
  assumes "graph_loop metrics startTime duration scaleX scaleY layers g = Some g'"
  shows "loop_counts (filterComplex g') =
           loop_counts (filterComplex g) @
           replicate (length (filter (exported startTime duration) layers))
             (Math_ceil (duration * 30) + 10)"
  using assms
proof (induction layers arbitrary: g)
  case Nil
  then show ?case by simp
next
  case (Cons layer rest)
  show ?case
  proof (cases "exported startTime duration layer")
    case False
    then have "graph_loop metrics startTime duration scaleX scaleY rest g = Some g'"
      using Cons.prems by (simp add: exported_def Let_def)
    then show ?thesis using Cons.IH False by simp
  next
    case True
    then obtain g1 where g1: "add_layer metrics duration scaleX scaleY layer g = Some g1"
      and rest: "graph_loop metrics startTime duration scaleX scaleY rest g1 = Some g'"
      using Cons.prems by (auto simp add: exported_def Let_def split: option.splits)
    from rest have "loop_counts (filterComplex g') =
           loop_counts (filterComplex g1) @
           replicate (length (filter (exported startTime duration) rest))
             (Math_ceil (duration * 30) + 10)" by (rule Cons.IH)
    then show ?thesis using add_layer_loop_counts [OF g1] True
      by (simp add: replicate_app_Cons_same)
  qed
qed

lemma exported_duration_positive:
  assumes "exported startTime duration layer"
  shows "0 < duration"
  using assms by (auto simp add: exported_def)

lemma loop_count_positive:
  assumes "0 < duration"
  shows "11 \<le> Math_ceil (duration * 30) + 10"
proof -
  have "0 < duration * 30" using assms by simp
  then have "0 < \<lceil>duration * 30\<rceil>" by (simp add: ceiling_less_iff)
  then show ?thesis by (simp add: Math_ceil_def)
qed

text \<open>
  C1: in the filter graph of \<open>transcode\<close> every layer that is not skipped has one loop
  operator, for drawings and for texts rendered to pictures alike, and each of them loops
  for \<open>ceil(d * 30) + 10\<close> frames, where \<open>d\<close> is the export duration; that count is at least
  11, never the \<open>-1\<close> of an endless loop.  A layer is only kept when \<open>d\<close> is positive, so
  this holds for every graph the code makes.
\<close>

theorem loop_counts_finite:
  assumes "transcode_graph metrics startTime endTime scaleX scaleY layers = Some g"
  shows "loop_counts (filterComplex g) =
           replicate (length (filter (exported startTime (endTime - startTime)) layers))
             (Math_ceil ((endTime - startTime) * 30) + 10) \<and>
         (\<forall>n \<in> set (loop_counts (filterComplex g)). n \<noteq> - 1 \<and> 11 \<le> n)"
proof -
  let ?d = "endTime - startTime"
  let ?k = "length (filter (exported startTime ?d) layers)"
  have eq: "loop_counts (filterComplex g) = replicate ?k (Math_ceil (?d * 30) + 10)"
    using graph_loop_loop_counts [of metrics startTime ?d scaleX scaleY layers _ g] assms
    by (simp add: transcode_graph_def)
  have "\<forall>n \<in> set (loop_counts (filterComplex g)). n \<noteq> - 1 \<and> 11 \<le> n"
  proof
    fix n assume "n \<in> set (loop_counts (filterComplex g))"
    with eq have n: "n = Math_ceil (?d * 30) + 10" and "0 < ?k" by auto
    then obtain layer where "layer \<in> set layers" "exported startTime ?d layer"
      by (metis filter_empty_conv length_greater_0_conv)
    then have "0 < ?d" using exported_duration_positive by blast
    then have "11 \<le> Math_ceil (?d * 30) + 10" by (rule loop_count_positive)
    with n show "n \<noteq> - 1 \<and> 11 \<le> n" by simp
  qed
  with eq show ?thesis by blast
qed

lemma example_graph:
  "transcode_graph example_metrics 2 7 1 1 [example_drawing, example_timing_layer] =
     Some \<lparr> filterComplex =
              [LoopScale 1 160 30 (1 / 2) 1 (Img 1), Overlay MainVideo (Img 1) 50 50 (V 1),
               LoopScale 2 160 30 1 1 (Txt 2), Overlay (V 1) (Txt 2) 100 100 (V 2)],
            currentStream = V 2, inputIndex = 3,
            inputs = [\<lparr> img_width = 7, img_height = 6 \<rparr>, \<lparr> img_width = 408, img_height = 56 \<rparr>] \<rparr>"
  by (simp add: transcode_graph_def add_layer_def example_drawing_def example_timing_layer_def
      Math_ceil_def Math_round_def renderTextToImage_def example_metrics_def canvas_size_def
      Let_def)

theorem loop_counts_finite_witness:
  "map_option (\<lambda>g. loop_counts (filterComplex g))
     (transcode_graph example_metrics 2 7 1 1 [example_drawing, example_timing_layer]) =
     Some [Math_ceil (5 * 30) + 10, Math_ceil (5 * 30) + 10] \<and>
   Math_ceil (5 * 30) + 10 = 160"
proof -
  have ex: "filter (exported 2 (7 - 2)) [example_drawing, example_timing_layer] =
      [example_drawing, example_timing_layer]"
    by (simp add: exported_def example_drawing_def example_timing_layer_def)
  from loop_counts_finite [OF example_graph] ex show ?thesis
    by (simp add: example_graph Math_ceil_def numeral_2_eq_2)
qed

lemma trunc_even_bounds:
  "truncated_even v (2 * trunc (v / 2))"
proof (cases "0 \<le> v")
  case True
  then have t: "trunc (v / 2) = \<lfloor>v / 2\<rfloor>" by (simp add: trunc_def)
  define n where "n = real_of_int \<lfloor>v / 2\<rfloor>"
  have "n \<le> v / 2" "v / 2 < n + 1" unfolding n_def by linarith+
  moreover have "0 \<le> n" unfolding n_def using True by simp
  ultimately have "\<bar>2 * n\<bar> \<le> \<bar>v\<bar>" "\<bar>v - 2 * n\<bar> < 2" by linarith+
  then show ?thesis unfolding truncated_even_def t n_def by simp
next
  case False
  then have t: "trunc (v / 2) = \<lceil>v / 2\<rceil>" by (simp add: trunc_def)
  define n where "n = real_of_int \<lceil>v / 2\<rceil>"
  have "v / 2 \<le> n" "n - 1 < v / 2" unfolding n_def by linarith+
  moreover have "n \<le> 0" unfolding n_def using False by (simp add: ceiling_le_iff)
  ultimately have "\<bar>2 * n\<bar> \<le> \<bar>v\<bar>" "\<bar>v - 2 * n\<bar> < 2" by linarith+
  then show ?thesis unfolding truncated_even_def t n_def by simp
qed

lemma target_size_scaled:
  "target_size iw (s * scale) = 2 * trunc (real iw * s * scale / 2)"
  by (simp add: target_size_def mult.assoc)

lemma loop_inputs_append:
  "loop_inputs (xs @ ys) = loop_inputs xs @ loop_inputs ys"
  by (induction xs rule: loop_inputs.induct) simp_all

lemma scale_size_more_inputs:
  assumes "\<forall>k \<in> set (loop_inputs fs). 1 \<le> k \<and> k \<le> length ins"
  shows "concat (map (scale_size (ins @ added)) fs) = concat (map (scale_size ins) fs)"
  using assms
proof (induction fs rule: loop_inputs.induct)
  case 1
  show ?case by simp
next
  case (2 k n fps fx fy s fs)
  then have k: "1 \<le> k \<and> k \<le> length ins" by simp
  then have "k - 1 < length ins" by linarith
  then have "scale_size (ins @ added) (LoopScale k n fps fx fy s) =
      scale_size ins (LoopScale k n fps fx fy s)" using k by (simp add: nth_append)
  moreover have "concat (map (scale_size (ins @ added)) fs) = concat (map (scale_size ins) fs)"
    using 2 by simp
  ultimately show ?case by simp
next
  case (3 main s x y out fs)
  then show ?case by simp
qed

lemma add_layer_sizes:
  assumes inv: "graph_inv g"
    and add: "add_layer metrics duration scaleX scaleY layer g = Some g'"
  shows "graph_inv g' \<and>
         (\<exists>img. layer_still metrics layer = Some img \<and>
            scale_sizes g' = scale_sizes g @
              [(target_size (img_width img) (fst (tr_scale (l_transform layer)) * scaleX),
                target_size (img_height img) (snd (tr_scale (l_transform layer)) * scaleY))])"
proof -
  from add obtain img lbl x y where still: "layer_still metrics layer = Some img"
    and g': "g' = \<lparr> filterComplex = filterComplex g @
                [LoopScale (inputIndex g) (Math_ceil (duration * 30) + 10) 30
                   (fst (tr_scale (l_transform layer)) * scaleX)
                   (snd (tr_scale (l_transform layer)) * scaleY) lbl,
                 Overlay (currentStream g) lbl x y (V (inputIndex g))],
              currentStream = V (inputIndex g), inputIndex = inputIndex g + 1,
              inputs = inputs g @ [img] \<rparr>"
    by (auto simp add: add_layer_def layer_still_def Let_def split: if_splits option.splits)
  from inv have idx: "inputIndex g = length (inputs g) + 1"
    and old: "\<forall>k \<in> set (loop_inputs (filterComplex g)). 1 \<le> k \<and> k \<le> length (inputs g)"
    by (simp_all add: graph_inv_def)
  have 1: "graph_inv g'" using idx old unfolding graph_inv_def g'
    by (auto simp add: loop_inputs_append intro: le_SucI)
  have "concat (map (scale_size (inputs g @ [img])) (filterComplex g)) =
      concat (map (scale_size (inputs g)) (filterComplex g))"
    using old by (rule scale_size_more_inputs)
  then have 2: "scale_sizes g' = scale_sizes g @
              [(target_size (img_width img) (fst (tr_scale (l_transform layer)) * scaleX),
                target_size (img_height img) (snd (tr_scale (l_transform layer)) * scaleY))]"
    unfolding scale_sizes_def g' using idx by simp
  from 1 still 2 show ?thesis by blast
qed

lemma add_layer_scaled_size:
  assumes "graph_inv g" "add_layer metrics duration scaleX scaleY layer g = Some g'"
  shows "graph_inv g' \<and> (\<exists>sz. scale_sizes g' = scale_sizes g @ [sz] \<and>
           scaled_size metrics scaleX scaleY layer sz)"
proof -
  from add_layer_sizes [OF assms] obtain img where inv: "graph_inv g'"
    and still: "layer_still metrics layer = Some img"
    and sz: "scale_sizes g' = scale_sizes g @
              [(target_size (img_width img) (fst (tr_scale (l_transform layer)) * scaleX),
                target_size (img_height img) (snd (tr_scale (l_transform layer)) * scaleY))]"
    by blast
  have "scaled_size metrics scaleX scaleY layer
      (target_size (img_width img) (fst (tr_scale (l_transform layer)) * scaleX),
       target_size (img_height img) (snd (tr_scale (l_transform layer)) * scaleY))"
    unfolding scaled_size_def using still
    by (simp add: target_size_scaled trunc_even_bounds)
  with inv sz show ?thesis by blast
qed

lemma graph_loop_sizes:
  assumes "graph_inv g" "graph_loop metrics startTime duration scaleX scaleY layers g = Some g'"
  shows "\<exists>new. scale_sizes g' = scale_sizes g @ new \<and>
           list_all2 (scaled_size metrics scaleX scaleY)
             (filter (exported startTime duration) layers) new"
  using assms
proof (induction layers arbitrary: g)
  case Nil
  then show ?case by simp
next
  case (Cons layer rest)
  show ?case
  proof (cases "exported startTime duration layer")
    case False
    then have "graph_loop metrics startTime duration scaleX scaleY rest g = Some g'"
      using Cons.prems by (simp add: exported_def Let_def)
    with Cons.prems(1) have "\<exists>new. scale_sizes g' = scale_sizes g @ new \<and>
           list_all2 (scaled_size metrics scaleX scaleY)
             (filter (exported startTime duration) rest) new" by (rule Cons.IH)
    then show ?thesis using False by simp
  next
    case True
    then obtain g1 where g1: "add_layer metrics duration scaleX scaleY layer g = Some g1"
      and rest: "graph_loop metrics startTime duration scaleX scaleY rest g1 = Some g'"
      using Cons.prems by (auto simp add: exported_def Let_def split: option.splits)
    from add_layer_scaled_size [OF Cons.prems(1) g1] obtain sz where inv1: "graph_inv g1"
      and sz: "scale_sizes g1 = scale_sizes g @ [sz]" "scaled_size metrics scaleX scaleY layer sz"
      by blast
    from inv1 rest have "\<exists>new. scale_sizes g' = scale_sizes g1 @ new \<and>
           list_all2 (scaled_size metrics scaleX scaleY)
             (filter (exported startTime duration) rest) new" by (rule Cons.IH)
    then obtain new where new: "scale_sizes g' = scale_sizes g1 @ new"
      "list_all2 (scaled_size metrics scaleX scaleY) (filter (exported startTime duration) rest) new"
      by blast
    have "scale_sizes g' = scale_sizes g @ (sz # new)" using new(1) sz(1) by simp
    moreover have "list_all2 (scaled_size metrics scaleX scaleY)
        (filter (exported startTime duration) (layer # rest)) (sz # new)"
      using True sz(2) new(2) by simp
    ultimately show ?thesis by blast
  qed
qed

text \<open>
  C6, as the code has it: the sides given to the scale operator of a layer are
  \<open>2 * trunc(w * scale.sx * scaleX / 2)\<close> and \<open>2 * trunc(h * scale.sy * scaleY / 2)\<close>, where
  \<open>w\<close> and \<open>h\<close> are the sides of the layer's picture: the products dropped towards zero to
  an even integer, less than 2 away and never larger in size.
\<close>

theorem scale_sizes_truncated_even:
  assumes "transcode_graph metrics startTime endTime scaleX scaleY layers = Some g"
  shows "list_all2 (scaled_size metrics scaleX scaleY)
           (filter (exported startTime (endTime - startTime)) layers) (scale_sizes g)"
proof -
  let ?g0 = "\<lparr> filterComplex = [], currentStream = MainVideo, inputIndex = 1, inputs = [] \<rparr>"
  have "graph_inv ?g0" by (simp add: graph_inv_def)
  moreover have "graph_loop metrics startTime (endTime - startTime) scaleX scaleY layers ?g0 = Some g"
    using assms by (simp add: transcode_graph_def)
  ultimately have "\<exists>new. scale_sizes g = scale_sizes ?g0 @ new \<and>
           list_all2 (scaled_size metrics scaleX scaleY)
             (filter (exported startTime (endTime - startTime)) layers) new"
    by (rule graph_loop_sizes)
  then show ?thesis by (simp add: scale_sizes_def)
qed

lemma example_kept:
  "filter (exported 2 (7 - 2)) [example_drawing, example_timing_layer] =
      [example_drawing, example_timing_layer]"
  by (simp add: exported_def example_drawing_def example_timing_layer_def)

lemma example_sizes:
  "map_option scale_sizes
     (transcode_graph example_metrics 2 7 1 1 [example_drawing, example_timing_layer]) =
   Some [(2, 6), (408, 56)]"
  by (simp add: example_graph scale_sizes_def target_size_def trunc_def)

theorem scale_sizes_truncated_even_witness:
  "scaled_size example_metrics 1 1 example_drawing (2, 6) \<and>
   scaled_size example_metrics 1 1 example_timing_layer (408, 56)"
proof -
  have "scale_sizes \<lparr> filterComplex =
              [LoopScale 1 160 30 (1 / 2) 1 (Img 1), Overlay MainVideo (Img 1) 50 50 (V 1),
               LoopScale 2 160 30 1 1 (Txt 2), Overlay (V 1) (Txt 2) 100 100 (V 2)],
            currentStream = V 2, inputIndex = 3,
            inputs = [\<lparr> img_width = 7, img_height = 6 \<rparr>, \<lparr> img_width = 408, img_height = 56 \<rparr>] \<rparr>
        = [(2, 6), (408, 56)]"
    using example_sizes by (simp add: example_graph)
  with scale_sizes_truncated_even [OF example_graph] example_kept show ?thesis by simp
qed

text \<open>
  C6 as the specification words it, rounding to the nearest even integer, fails: a drawing
  7 pixels wide at scale 1/2 gets the width 2, and the even integer nearest to 3.5 is 4.
\<close>

theorem scale_size_not_nearest_even_counterexample:
  "map_option scale_sizes (transcode_graph example_metrics 2 7 1 1 [example_drawing]) =
     Some [(2, 6)] \<and>
   l_src example_drawing = Some \<lparr> img_width = 7, img_height = 6 \<rparr> \<and>
   tr_scale (l_transform example_drawing) = (1 / 2, 1) \<and>
   round_even (real 7 * (1 / 2) * 1) = 4"
  by (simp add: transcode_graph_def add_layer_def example_drawing_def Math_ceil_def
      Math_round_def scale_sizes_def target_size_def trunc_def round_even_def Let_def)

section \<open>Properties of the frame compositors\<close>

lemmas canvas_defs =
  ctx_save_def ctx_restore_def ctx_translate_def ctx_rotate_def ctx_scale_def ctx_font_def
  ctx_fillStyle_def ctx_textAlign_def ctx_textBaseline_def ctx_drawImage_def ctx_drawImage3_def
  ctx_fillText_def ctm_translate_def ctm_rotate_def ctm_scale_def apply_ctm_def identity_ctm_def

lemma drawOverlay_image_top_left:
  assumes "l_type overlay = Some ''image''" "l_src overlay = Some img"
    and "tr_rotate (l_transform overlay) = 0" "tr_scale (l_transform overlay) = (1, 1)"
    and "ds_transform (cur ctx) = identity_ctm"
  shows "map image_top_left (drawn (drawOverlay this metrics ctx overlay canvasWidth canvasHeight)) =
           map image_top_left (drawn ctx) @
           [Some (tr_x (l_transform overlay) * fst (overlay_scale this canvasWidth canvasHeight),
                  tr_y (l_transform overlay) * snd (overlay_scale this canvasWidth canvasHeight))]"
  using assms
  by (simp add: drawOverlay_def canvas_defs Let_def split_beta)

lemma overlay_scale_display:
  "overlay_scale (example_exporter 400 225) 1920 1080 = (24 / 5, 24 / 5)"
  by (simp add: overlay_scale_def example_exporter_def constructor_def or_null_def)

lemma drawOverlay_image_example:
  "map image_top_left
     (drawn (drawOverlay (example_exporter 400 225) metrics new_context example_raster 1920 1080)) =
   [Some (240, 240)]"
proof -
  have "map image_top_left
     (drawn (drawOverlay (example_exporter 400 225) metrics new_context example_raster 1920 1080)) =
     map image_top_left (drawn new_context) @
           [Some (tr_x (l_transform example_raster) * fst (overlay_scale (example_exporter 400 225) 1920 1080),
                  tr_y (l_transform example_raster) * snd (overlay_scale (example_exporter 400 225) 1920 1080))]"
    by (rule drawOverlay_image_top_left)
      (simp_all add: example_raster_def new_context_def)
  then show ?thesis
    by (simp add: overlay_scale_display) (simp add: example_raster_def new_context_def)
qed

lemma drawImageOverlay_top_left:
  assumes "tr_rotate (l_transform overlay) = 0"
    and "ds_transform (cur ctx) = identity_ctm"
  shows "map image_top_left (drawn (drawImageOverlay ctx overlay img scaleX scaleY)) =
           map image_top_left (drawn ctx) @
           [Some (tr_x (l_transform overlay) * scaleX -
                    real (img_width img) * (fst (tr_scale (l_transform overlay)) * scaleX) / 2,
                  tr_y (l_transform overlay) * scaleY -
                    real (img_height img) * (snd (tr_scale (l_transform overlay)) * scaleY) / 2)]"
  using assms
  by (simp add: drawImageOverlay_def canvas_defs Let_def algebra_simps)

text \<open>
  C5: the streaming exporter's \<open>drawOverlay\<close> paints an unrotated, unscaled drawing with its
  top-left corner at \<open>(x * scaleX, y * scaleY)\<close>, which is (240, 240) for a drawing at
  (50, 50), a display of 400 by 225 and a video of 1920 by 1080 (the two lemmas above).  The
  canvas compositor's \<open>drawImageOverlay\<close> does not: it centres the picture on that point,
  so the same drawing, 100 by 60 pixels, has its top-left corner at (0, 96).
\<close>

theorem drawImageOverlay_centres_image:
  "map image_top_left
     (drawn (drawImageOverlay new_context example_raster \<lparr> img_width = 100, img_height = 60 \<rparr>
        (1920 / 400) (1080 / 225))) = [Some (0, 96)]"
proof -
  have "map image_top_left
     (drawn (drawImageOverlay new_context example_raster \<lparr> img_width = 100, img_height = 60 \<rparr>
        (1920 / 400) (1080 / 225))) =
     map image_top_left (drawn new_context) @
           [Some (tr_x (l_transform example_raster) * (1920 / 400) -
                    real (img_width \<lparr> img_width = 100, img_height = 60 \<rparr>) *
                      (fst (tr_scale (l_transform example_raster)) * (1920 / 400)) / 2,
                  tr_y (l_transform example_raster) * (1080 / 225) -
                    real (img_height \<lparr> img_width = 100, img_height = 60 \<rparr>) *
                      (snd (tr_scale (l_transform example_raster)) * (1080 / 225)) / 2)]"
    by (rule drawImageOverlay_top_left) (simp_all add: example_raster_def new_context_def)
  then show ?thesis by (simp add: example_raster_def new_context_def)
qed

lemma Math_round_near:
  "\<bar>real_of_int (Math_round v) - v\<bar> \<le> 1 / 2"
proof -
  have "real_of_int \<lfloor>v + 1 / 2\<rfloor> \<le> v + 1 / 2" "v + 1 / 2 < real_of_int \<lfloor>v + 1 / 2\<rfloor> + 1"
    by linarith+
  then show ?thesis unfolding Math_round_def by linarith
qed

lemma streaming_text_box_plain:
  assumes "l_type overlay \<noteq> Some ''image''"
    and "tr_rotate (l_transform overlay) = 0" "tr_scale (l_transform overlay) = (1, 1)"
    and "overlay_scale this canvasWidth canvasHeight = (scaleX, scaleY)"
  shows "streaming_text_boxes this metrics overlay canvasWidth canvasHeight =
           [Some ((tr_x (l_transform overlay) * scaleX, tr_y (l_transform overlay) * scaleY),
                  (tr_x (l_transform overlay) * scaleX +
                     fst (text_element metrics overlay ((scaleX + scaleY) / 2)),
                   tr_y (l_transform overlay) * scaleY +
                     snd (text_element metrics overlay ((scaleX + scaleY) / 2))))]"
  using assms
  by (simp add: streaming_text_boxes_def drawOverlay_def canvas_defs new_context_def Let_def
      split_beta)

lemma graph_text_box_plain:
  assumes "l_type overlay \<noteq> Some ''image''"
    and "exported startTime (endTime - startTime) overlay"
    and "transcode_graph metrics startTime endTime scaleX scaleY [overlay] = Some g"
  shows "overlay_boxes g =
           [((real_of_int (Math_round (tr_x (l_transform overlay) * scaleX)),
              real_of_int (Math_round (tr_y (l_transform overlay) * scaleY))),
             (real_of_int (Math_round (tr_x (l_transform overlay) * scaleX) +
                target_size (img_width (renderTextToImage metrics overlay))
                  (fst (tr_scale (l_transform overlay)) * scaleX)),
              real_of_int (Math_round (tr_y (l_transform overlay) * scaleY) +
                target_size (img_height (renderTextToImage metrics overlay))
                  (snd (tr_scale (l_transform overlay)) * scaleY))))]"
  using assms
  by (auto simp add: transcode_graph_def add_layer_def overlay_boxes_def scale_sizes_def Let_def
      exported_def split: if_splits)

lemma drawTextOverlay_anchor:
  assumes "ds_transform (cur ctx) = identity_ctm"
  shows "map (text_box (0, 0)) (drawn (drawTextOverlay ctx overlay scaleX scaleY)) =
           map (text_box (0, 0)) (drawn ctx) @
           [Some ((tr_x (l_transform overlay) * scaleX, tr_y (l_transform overlay) * scaleY),
                  (tr_x (l_transform overlay) * scaleX, tr_y (l_transform overlay) * scaleY))]"
  using assms
  by (simp add: drawTextOverlay_def canvas_defs Let_def)

lemma transcode_scale_example:
  "transcode_scale (400, 225)
     \<lparr> videoWidth = 1920, videoHeight = 1080, clientWidth = 640, clientHeight = 360 \<rparr> =
   Some (24 / 5, 24 / 5)"
  by (simp add: transcode_scale_def js_or_def)

text \<open>
  What the two paths share for a text layer that is neither rotated nor scaled: the
  streaming exporter puts the top-left corner of the text's box at
  \<open>(x * scaleX, y * scaleY)\<close>, the graph at the same point rounded to whole pixels.
\<close>

lemma text_top_left_agrees:
  assumes "l_type overlay \<noteq> Some ''image''"
    and "tr_rotate (l_transform overlay) = 0" "tr_scale (l_transform overlay) = (1, 1)"
    and "overlay_scale this canvasWidth canvasHeight = (scaleX, scaleY)"
    and "exported startTime (endTime - startTime) overlay"
    and "transcode_graph metrics startTime endTime scaleX scaleY [overlay] = Some g"
  shows "streaming_text_boxes this metrics overlay canvasWidth canvasHeight =
           [Some ((tr_x (l_transform overlay) * scaleX, tr_y (l_transform overlay) * scaleY),
                  (tr_x (l_transform overlay) * scaleX +
                     fst (text_element metrics overlay ((scaleX + scaleY) / 2)),
                   tr_y (l_transform overlay) * scaleY +
                     snd (text_element metrics overlay ((scaleX + scaleY) / 2))))] \<and>
         overlay_boxes g =
           [((real_of_int (Math_round (tr_x (l_transform overlay) * scaleX)),
              real_of_int (Math_round (tr_y (l_transform overlay) * scaleY))),
             (real_of_int (Math_round (tr_x (l_transform overlay) * scaleX) +
                target_size (img_width (renderTextToImage metrics overlay)) scaleX),
              real_of_int (Math_round (tr_y (l_transform overlay) * scaleY) +
                target_size (img_height (renderTextToImage metrics overlay)) scaleY)))] \<and>
         \<bar>real_of_int (Math_round (tr_x (l_transform overlay) * scaleX)) -
            tr_x (l_transform overlay) * scaleX\<bar> \<le> 1 / 2 \<and>
         \<bar>real_of_int (Math_round (tr_y (l_transform overlay) * scaleY)) -
            tr_y (l_transform overlay) * scaleY\<bar> \<le> 1 / 2"
  using streaming_text_box_plain [OF assms(1-4)] graph_text_box_plain [OF assms(1,5,6)] assms(3)
    Math_round_near
  by simp

lemma example_streaming_box:
  "streaming_text_boxes (example_exporter 1920 1080) example_metrics example_timing_layer 1920 1080 =
     [Some ((100, 100), (508, 148))]"
proof -
  have s: "overlay_scale (example_exporter 1920 1080) 1920 1080 = (1, 1)"
    by (simp add: overlay_scale_def example_exporter_def constructor_def or_null_def)
  have "streaming_text_boxes (example_exporter 1920 1080) example_metrics example_timing_layer 1920 1080 =
           [Some ((tr_x (l_transform example_timing_layer) * 1, tr_y (l_transform example_timing_layer) * 1),
                  (tr_x (l_transform example_timing_layer) * 1 +
                     fst (text_element example_metrics example_timing_layer ((1 + 1) / 2)),
                   tr_y (l_transform example_timing_layer) * 1 +
                     snd (text_element example_metrics example_timing_layer ((1 + 1) / 2))))]"
    by (rule streaming_text_box_plain) (simp_all add: example_timing_layer_def s)
  then show ?thesis
    by (simp add: text_element_def text_font_def example_metrics_def example_timing_layer_def
        js_or_def str_or_def Let_def)
qed

lemma example_text_graph:
  "transcode_graph example_metrics 0 5 1 1 [example_timing_layer] =
     Some \<lparr> filterComplex = [LoopScale 1 160 30 1 1 (Txt 1), Overlay MainVideo (Txt 1) 100 100 (V 1)],
            currentStream = V 1, inputIndex = 2,
            inputs = [\<lparr> img_width = 408, img_height = 56 \<rparr>] \<rparr>"
  by (simp add: transcode_graph_def add_layer_def example_timing_layer_def
      Math_ceil_def Math_round_def renderTextToImage_def example_metrics_def canvas_size_def
      Let_def)

lemma example_graph_box:
  "map_option overlay_boxes (transcode_graph example_metrics 0 5 1 1 [example_timing_layer]) =
     Some [((100, 100), (508, 156))]"
  by (simp add: example_text_graph overlay_boxes_def scale_sizes_def target_size_def trunc_def)

lemma add_layer_ignores_rotation:
  "add_layer metrics duration scaleX scaleY
     (layer\<lparr> l_transform := (l_transform layer)\<lparr> tr_rotate := angle \<rparr> \<rparr>) g =
   add_layer metrics duration scaleX scaleY layer g"
  by (simp add: add_layer_def renderTextToImage_def Let_def split: option.splits)

text \<open>
  C2: the streaming exporter and the graph are to give the same picture, with a text at the
  same place and size.  They do not, even where display and video have the same size: both
  centre the text of the example in a box with its top-left corner at (100, 100), but
  \<open>drawOverlay\<close> takes the font size, 40, for the height of the text and ends the box at
  line 148, while \<open>renderTextToImage\<close> takes 1.2 times the font size and the graph ends the
  box at line 156, so the text sits 4 lines lower.  The graph also leaves the rotation of a
  layer out (the lemma above), which \<open>drawOverlay\<close> applies.
\<close>

theorem text_boxes_differ:
  "streaming_text_boxes (example_exporter 1920 1080) example_metrics example_timing_layer 1920 1080 =
     [Some ((100, 100), (508, 148))] \<and>
   map_option overlay_boxes (transcode_graph example_metrics 0 5 1 1 [example_timing_layer]) =
     Some [((100, 100), (508, 156))]"
  using example_streaming_box example_graph_box by simp

end
